theory Spec2Isabelle
  imports Complex_Main
begin

section \<open>JavaScript strings\<close>

text \<open>
  A string is a list of characters; the 8-bit characters of HOL are read as the code points
  U+0000 to U+00FF.  Among them the white space of \<open>String.prototype.trim\<close> and of the
  regular expression class \<open>\s\<close> is TAB, LF, VT, FF, CR, SPACE and NO-BREAK SPACE, and
  \<open>toLowerCase\<close> changes the letters A to Z and U+00C0 to U+00DE (without the
  multiplication sign U+00D7).
\<close>

definition is_ws :: "char \<Rightarrow> bool" where
  "is_ws c = (c \<in> set [CHR 0x09, CHR 0x0A, CHR 0x0B, CHR 0x0C, CHR 0x0D, CHR 0x20, CHR 0xA0])"

definition trim :: "string \<Rightarrow> string" where
  "trim s = rev (dropWhile is_ws (rev (dropWhile is_ws s)))"

definition upper_chars :: "char list" where
  "upper_chars = ''ABCDEFGHIJKLMNOPQRSTUVWXYZ'' @
     [CHR 0xC0, CHR 0xC1, CHR 0xC2, CHR 0xC3, CHR 0xC4, CHR 0xC5, CHR 0xC6, CHR 0xC7,
      CHR 0xC8, CHR 0xC9, CHR 0xCA, CHR 0xCB, CHR 0xCC, CHR 0xCD, CHR 0xCE, CHR 0xCF,
      CHR 0xD0, CHR 0xD1, CHR 0xD2, CHR 0xD3, CHR 0xD4, CHR 0xD5, CHR 0xD6,
      CHR 0xD8, CHR 0xD9, CHR 0xDA, CHR 0xDB, CHR 0xDC, CHR 0xDD, CHR 0xDE]"

definition lower_chars :: "char list" where
  "lower_chars = ''abcdefghijklmnopqrstuvwxyz'' @
     [CHR 0xE0, CHR 0xE1, CHR 0xE2, CHR 0xE3, CHR 0xE4, CHR 0xE5, CHR 0xE6, CHR 0xE7,
      CHR 0xE8, CHR 0xE9, CHR 0xEA, CHR 0xEB, CHR 0xEC, CHR 0xED, CHR 0xEE, CHR 0xEF,
      CHR 0xF0, CHR 0xF1, CHR 0xF2, CHR 0xF3, CHR 0xF4, CHR 0xF5, CHR 0xF6,
      CHR 0xF8, CHR 0xF9, CHR 0xFA, CHR 0xFB, CHR 0xFC, CHR 0xFD, CHR 0xFE]"

definition lower_char :: "char \<Rightarrow> char" where
  "lower_char c = (case map_of (zip upper_chars lower_chars) c of Some d \<Rightarrow> d | None \<Rightarrow> c)"

definition toLowerCase :: "string \<Rightarrow> string" where
  "toLowerCase s = map lower_char s"

text \<open>\<open>s.startsWith(p)\<close> and \<open>s.includes(p)\<close> (\<open>includes\<close> is a keyword of Isabelle).\<close>

fun startsWith :: "string \<Rightarrow> string \<Rightarrow> bool" where
  "startsWith s [] = True"
| "startsWith [] (p # ps) = False"
| "startsWith (c # cs) (p # ps) = (c = p \<and> startsWith cs ps)"

fun str_includes :: "string \<Rightarrow> string \<Rightarrow> bool" where
  "str_includes [] p = (p = [])"
| "str_includes (c # cs) p = (startsWith (c # cs) p \<or> str_includes cs p)"

text \<open>
  \<open>s.split(",")\<close>: the pieces between the separators, one more than there are separators.
  The first argument collects the current piece in reverse.
\<close>

fun split_at :: "char \<Rightarrow> string \<Rightarrow> string \<Rightarrow> string list" where
  "split_at sep cur [] = [rev cur]"
| "split_at sep cur (c # cs) =
     (if c = sep then rev cur # split_at sep [] cs else split_at sep (c # cur) cs)"

definition split :: "char \<Rightarrow> string \<Rightarrow> string list" where
  "split sep s = split_at sep [] s"

text \<open>
  \<open>raw.split(/\r?\n/)\<close>: a separator is a line feed, together with the carriage return
  in front of it when there is one.
\<close>

fun split_lines_at :: "string \<Rightarrow> string \<Rightarrow> string list" where
  "split_lines_at cur [] = [rev cur]"
| "split_lines_at cur [c] = (if c = CHR 0x0A then [rev cur, []] else [rev (c # cur)])"
| "split_lines_at cur (c # d # cs) =
     (if c = CHR 0x0A then rev cur # split_lines_at [] (d # cs)
      else if c = CHR 0x0D \<and> d = CHR 0x0A then rev cur # split_lines_at [] cs
      else split_lines_at (c # cur) (d # cs))"

definition split_lines :: "string \<Rightarrow> string list" where
  "split_lines raw = split_lines_at [] raw"

text \<open>\<open>Array.prototype.join\<close> on strings.\<close>

fun join :: "string \<Rightarrow> string list \<Rightarrow> string" where
  "join sep [] = []"
| "join sep [x] = x"
| "join sep (x # y # ys) = x @ sep @ join sep (y # ys)"

text \<open>\<open>id.replaceAll("_", " ")\<close>.\<close>

definition replaceAll_underscore :: "string \<Rightarrow> string" where
  "replaceAll_underscore s = map (\<lambda>c. if c = CHR ''_'' then CHR '' '' else c) s"

text \<open>
  \<open>value.replace(/\s+/g, "_")\<close>: every maximal run of white space becomes one
  underscore.  The flag says whether the previous character belonged to a run.
\<close>

fun replace_ws_runs :: "bool \<Rightarrow> string \<Rightarrow> string" where
  "replace_ws_runs in_run [] = []"
| "replace_ws_runs in_run (c # cs) =
     (if is_ws c
      then (if in_run then replace_ws_runs True cs else CHR ''_'' # replace_ws_runs True cs)
      else c # replace_ws_runs False cs)"

section \<open>JavaScript numbers\<close>

text \<open>
  A JavaScript number is NaN, one of the two infinities, or a finite value; the finite
  values are read as real numbers.  An optional parameter or property (\<open>value?: number\<close>)
  is an \<open>option\<close>: \<open>None\<close> stands for \<open>undefined\<close> and \<open>null\<close>, which the
  source never tells apart (\<open>== null\<close>, \<open>!= null\<close>, \<open>??\<close>).
\<close>

datatype jsnum = NaN | PosInf | NegInf | Fin real

text \<open>The relational operator \<open><\<close> on numbers: every comparison with NaN is false.\<close>

fun js_lt :: "jsnum \<Rightarrow> jsnum \<Rightarrow> bool" where
  "js_lt NaN b = False"
| "js_lt a NaN = False"
| "js_lt (Fin a) (Fin b) = (a < b)"
| "js_lt a NegInf = False"
| "js_lt NegInf b = True"
| "js_lt PosInf b = False"
| "js_lt (Fin a) PosInf = True"

definition js_gt :: "jsnum \<Rightarrow> jsnum \<Rightarrow> bool" where
  "js_gt a b = js_lt b a"

definition isNaN :: "jsnum \<Rightarrow> bool" where
  "isNaN v = (case v of NaN \<Rightarrow> True | PosInf \<Rightarrow> False | NegInf \<Rightarrow> False | Fin x \<Rightarrow> False)"

definition isFinite :: "jsnum \<Rightarrow> bool" where
  "isFinite v = (case v of NaN \<Rightarrow> False | PosInf \<Rightarrow> False | NegInf \<Rightarrow> False | Fin x \<Rightarrow> True)"

section \<open>lib/ref.ts: the reference table and the classifier\<close>

record ref_range =
  ref_low :: "jsnum option"
  ref_high :: "jsnum option"

definition REF :: "(string \<times> ref_range) list" where
  "REF =
    [(''Hemoglobin'', \<lparr>ref_low = Some (Fin 12.0), ref_high = Some (Fin 16.0)\<rparr>),
     (''MCV'', \<lparr>ref_low = Some (Fin 80), ref_high = Some (Fin 100)\<rparr>),
     (''ferritin'', \<lparr>ref_low = Some (Fin 30), ref_high = Some (Fin 200)\<rparr>),
     (''indicator_iron_serum'', \<lparr>ref_low = Some (Fin 60), ref_high = Some (Fin 170)\<rparr>),
     (''transferrin'', \<lparr>ref_low = Some (Fin 200), ref_high = Some (Fin 360)\<rparr>),
     (''total_iron_binding_capacity'', \<lparr>ref_low = Some (Fin 250), ref_high = Some (Fin 450)\<rparr>),
     (''vitamin_B12'', \<lparr>ref_low = Some (Fin 200), ref_high = Some (Fin 900)\<rparr>),
     (''folate_plasma'', \<lparr>ref_low = Some (Fin 4.0), ref_high = Some (Fin 20.0)\<rparr>),
     (''vitamin_D'', \<lparr>ref_low = Some (Fin 20), ref_high = Some (Fin 50)\<rparr>),
     (''vitamin_C'', \<lparr>ref_low = Some (Fin 0.4), ref_high = Some (Fin 2.0)\<rparr>),
     (''vitamin_E'', \<lparr>ref_low = Some (Fin 5.0), ref_high = Some (Fin 20.0)\<rparr>),
     (''vitamin_A'', \<lparr>ref_low = Some (Fin 20), ref_high = Some (Fin 80)\<rparr>),
     (''vitamin_B6'', \<lparr>ref_low = Some (Fin 5), ref_high = Some (Fin 50)\<rparr>),
     (''magnesium'', \<lparr>ref_low = Some (Fin 1.7), ref_high = Some (Fin 2.3)\<rparr>),
     (''calcium'', \<lparr>ref_low = Some (Fin 8.6), ref_high = Some (Fin 10.2)\<rparr>),
     (''zinc'', \<lparr>ref_low = Some (Fin 60), ref_high = Some (Fin 120)\<rparr>),
     (''homocysteine'', \<lparr>ref_low = Some (Fin 5), ref_high = Some (Fin 15)\<rparr>)]"

text \<open>
  \<open>REF\<close> is an object literal, so the property read \<open>REF[marker]\<close> also finds the
  properties every object inherits from \<open>Object.prototype\<close>.  Their values are functions
  (for \<open>__proto__\<close> the prototype object itself): truthy, and without a \<open>low\<close> or a
  \<open>high\<close> property.
\<close>

definition Object_prototype_keys :: "string list" where
  "Object_prototype_keys =
    [''constructor'', ''__defineGetter__'', ''__defineSetter__'', ''hasOwnProperty'',
     ''__lookupGetter__'', ''__lookupSetter__'', ''isPrototypeOf'', ''propertyIsEnumerable'',
     ''toString'', ''valueOf'', ''__proto__'', ''toLocaleString'']"

definition REF_get :: "string \<Rightarrow> ref_range option" where
  "REF_get marker =
     (case map_of REF marker of
        Some r \<Rightarrow> Some r
      | None \<Rightarrow>
          if marker \<in> set Object_prototype_keys
          then Some \<lparr>ref_low = None, ref_high = None\<rparr>
          else None)"

datatype status = Low | Normal | High | Unknown

definition classifyValue :: "string \<Rightarrow> jsnum option \<Rightarrow> status" where
  "classifyValue marker val =
     (case REF_get marker of
        None \<Rightarrow> Unknown
      | Some r \<Rightarrow>
          (case val of
             None \<Rightarrow> Unknown
           | Some v \<Rightarrow>
               if isNaN v then Unknown
               else if (case ref_low r of None \<Rightarrow> False | Some l \<Rightarrow> js_lt v l) then Low
               else if (case ref_high r of None \<Rightarrow> False | Some h \<Rightarrow> js_gt v h) then High
               else Normal))"

text \<open>The invariant of the data model: both bounds present and finite, \<open>low < high\<close>.\<close>

definition proper_range :: "ref_range \<Rightarrow> bool" where
  "proper_range r =
     (case ref_low r of
        Some (Fin l) \<Rightarrow> (case ref_high r of Some (Fin h) \<Rightarrow> l < h | _ \<Rightarrow> False)
      | _ \<Rightarrow> False)"

section \<open>lib/types.ts: notes, recommendations and the schedule\<close>

record MarkerClassification =
  mc_marker :: string
  mc_value :: "jsnum option"
  mc_status :: status
  mc_note :: string

record ScheduleItem =
  title :: string
  timeframe :: string
  description :: string

record RecommendationPayload =
  markers :: "MarkerClassification list"
  summary :: string
  schedule :: "ScheduleItem list"

record note_entry =
  note_low :: "string option"
  note_high :: "string option"

definition NOTES :: "(string \<times> note_entry) list" where
  "NOTES =
    [(''Hemoglobin'',
        \<lparr>note_low = Some ''Hemoglobin is below the reference range and may indicate anemia or iron deficiency.'',
         note_high = Some ''Elevated hemoglobin can be associated with dehydration or chronic hypoxia.''\<rparr>),
     (''MCV'',
        \<lparr>note_low = Some ''Low MCV values can signal microcytic anemia, often linked to iron deficiency.'',
         note_high = Some ''High MCV is associated with macrocytic anemia and can reflect B12 or folate deficiency.''\<rparr>),
     (''ferritin'',
        \<lparr>note_low = Some ''Low ferritin is a strong indicator of depleted iron stores.'',
         note_high = Some ''High ferritin can be inflammatory or signal iron overload.''\<rparr>),
     (''vitamin_B12'',
        \<lparr>note_low = Some ''Low B12 may contribute to neuropathy and macrocytic anemia.'',
         note_high = Some ''Elevated B12 can be linked to supplementation or liver dysfunction.''\<rparr>),
     (''folate_plasma'',
        \<lparr>note_low = Some ''Low folate can impair cell division and contribute to macrocytic anemia.'',
         note_high = Some ''High folate is usually benign but can mask B12 deficiency symptoms.''\<rparr>),
     (''vitamin_D'',
        \<lparr>note_low = Some ''Low vitamin D is associated with bone density loss and immune dysregulation.'',
         note_high = Some ''High vitamin D may cause hypercalcemia; ensure dosing is appropriate.''\<rparr>),
     (''homocysteine'',
        \<lparr>note_low = None,
         note_high = Some ''Elevated homocysteine is a cardiovascular risk marker and may respond to B12, folate, and B6.''\<rparr>)]"

text \<open>
  The read \<open>NOTES[marker]?.[status]\<close>.  A table entry has at most the properties
  \<open>low\<close> and \<open>high\<close>, so the statuses \<open>normal\<close> and \<open>unknown\<close> find nothing.
  A property inherited from \<open>Object.prototype\<close> is a function or object without a
  property named after a status, so for such a marker the read yields nothing as well.
\<close>

definition NOTES_get :: "string \<Rightarrow> status \<Rightarrow> string option" where
  "NOTES_get marker st =
     (case map_of NOTES marker of
        None \<Rightarrow> None
      | Some n \<Rightarrow>
          (case st of Low \<Rightarrow> note_low n | High \<Rightarrow> note_high n
           | Normal \<Rightarrow> None | Unknown \<Rightarrow> None))"

text \<open>Decimal rendering of a count, as the template literal \<open>${lowCount}\<close> prints it.\<close>

definition digit_char :: "nat \<Rightarrow> char" where
  "digit_char d = ''0123456789'' ! d"

fun nat_to_string :: "nat \<Rightarrow> string" where
  "nat_to_string n =
     (if n < 10 then [digit_char n] else nat_to_string (n div 10) @ [digit_char (n mod 10)])"

declare nat_to_string.simps [simp del]

definition summarize :: "MarkerClassification list \<Rightarrow> string" where
  "summarize classifications =
     (let lowCount = length (filter (\<lambda>c. mc_status c = Low) classifications);
          highCount = length (filter (\<lambda>c. mc_status c = High) classifications)
      in if lowCount = 0 \<and> highCount = 0
         then ''All submitted markers are currently within the reference range.''
         else
           (let parts = [];
                parts = (if lowCount \<noteq> 0 then parts @ [nat_to_string lowCount @ '' low''] else parts);
                parts = (if highCount \<noteq> 0 then parts @ [nat_to_string highCount @ '' high''] else parts)
            in ''Detected '' @ join '' and '' parts @ '' marker''
                 @ (if lowCount + highCount > 1 then ''s'' else [])
                 @ ''. Prioritize follow-up with your provider.''))"

definition hasIronIssues :: "MarkerClassification list \<Rightarrow> bool" where
  "hasIronIssues classifications =
     list_ex (\<lambda>c. (mc_marker c = ''Hemoglobin'' \<or> mc_marker c = ''ferritin''
                    \<or> mc_marker c = ''indicator_iron_serum'')
                  \<and> mc_status c = Low) classifications"

definition hasBComplexIssues :: "MarkerClassification list \<Rightarrow> bool" where
  "hasBComplexIssues classifications =
     list_ex (\<lambda>c. (mc_marker c = ''vitamin_B12'' \<or> mc_marker c = ''folate_plasma''
                    \<or> mc_marker c = ''vitamin_B6'')
                  \<and> (mc_status c = Low \<or> mc_status c = High)) classifications"

definition hasVitaminDIssue :: "MarkerClassification list \<Rightarrow> bool" where
  "hasVitaminDIssue classifications =
     list_ex (\<lambda>c. mc_marker c = ''vitamin_D'' \<and> mc_status c \<noteq> Normal) classifications"

definition followUps :: "MarkerClassification list \<Rightarrow> nat" where
  "followUps classifications = length (filter (\<lambda>c. mc_status c \<noteq> Normal) classifications)"

definition buildSchedule :: "MarkerClassification list \<Rightarrow> ScheduleItem list" where
  "buildSchedule classifications =
     (let schedule =
            [\<lparr>title = ''Lifestyle Check-in'',
              timeframe = ''This week'',
              description = ''Review dietary intake, sleep, and stress. Capture at least three days of meals to discuss with your care team.''\<rparr>,
             \<lparr>title = ''Practitioner Review'',
              timeframe = (if followUps classifications > 0 then ''Within 2 weeks'' else ''Within 6 months''),
              description =
                (if followUps classifications \<noteq> 0
                 then ''Share these results with your primary care provider or dietitian to confirm next steps.''
                 else ''Maintain routine monitoring with your healthcare provider.'')\<rparr>];
          schedule =
            (if hasIronIssues classifications
             then schedule @
               [\<lparr>title = ''Iron Re-evaluation'',
                 timeframe = ''In 6-8 weeks'',
                 description = ''Re-check hemoglobin, ferritin, and transferrin saturation after implementing dietary or supplement changes.''\<rparr>]
             else schedule);
          schedule =
            (if hasBComplexIssues classifications
             then schedule @
               [\<lparr>title = ''B-Vitamin Follow-up'',
                 timeframe = ''In 8 weeks'',
                 description = ''Assess B12, folate, and homocysteine after adjusting intake or supplements.''\<rparr>]
             else schedule);
          schedule =
            (if hasVitaminDIssue classifications
             then schedule @
               [\<lparr>title = ''Vitamin D Monitoring'',
                 timeframe = ''In 12 weeks'',
                 description = ''Re-test 25(OH)D to ensure levels trend toward the target range.''\<rparr>]
             else schedule)
      in schedule)"

text \<open>
  \<open>Object.entries(values)\<close> is the list of the submitted (marker, value) pairs, a value
  being absent for a key whose property is \<open>undefined\<close>.
\<close>

definition classifyEntry :: "string \<times> jsnum option \<Rightarrow> MarkerClassification" where
  "classifyEntry entry =
     (let marker = fst entry; val = snd entry;
          st = classifyValue marker val;
          note_text =
            (case NOTES_get marker st of
               Some n \<Rightarrow> n
             | None \<Rightarrow>
                 if st = Normal
                 then ''Within the reference range; continue current support.''
                 else ''No reference available for this marker.'')
      in \<lparr>mc_marker = marker, mc_value = val, mc_status = st, mc_note = note_text\<rparr>)"

definition buildRecommendations :: "(string \<times> jsnum option) list \<Rightarrow> RecommendationPayload" where
  "buildRecommendations values =
     (let markers = map classifyEntry values
      in \<lparr>markers = markers, summary = summarize markers, schedule = buildSchedule markers\<rparr>)"

section \<open>app/api/network/graph/route.ts: the relationship parser and the graph builder\<close>

datatype RelationType = Booster | Antagonist | Cofactor | Shared

datatype NutrientType = Vitamin | Mineral | Marker | Compound

datatype Cluster = Iron | BComplex | FatSoluble | Other

record CsvEdge =
  source :: string
  target :: string
  effect :: string
  confidence :: string
  edge_notes :: string

definition mapEffectToRelation :: "string \<Rightarrow> RelationType" where
  "mapEffectToRelation eff =
     (let e = toLowerCase (trim eff)
      in if e = ''boosts'' \<or> e = ''enhances'' then Booster
         else if e = ''inhibits'' \<or> e = ''reduces'' \<or> e = ''blocks'' then Antagonist
         else if e = ''cofactor'' \<or> e = ''supports'' then Cofactor
         else Shared)"

definition confidenceToNumber :: "string \<Rightarrow> real" where
  "confidenceToNumber conf =
     (let c = toLowerCase (trim conf)
      in if str_includes c ''high'' \<and> str_includes c ''moderate'' then 0.75
         else if str_includes c ''high'' then 0.9
         else if str_includes c ''moderate'' \<and> str_includes c ''low'' then 0.45
         else if str_includes c ''moderate'' then 0.6
         else if str_includes c ''low'' then 0.3
         else 0.5)"

definition MINERALS :: "string list" where
  "MINERALS = [''iron'', ''zinc'', ''magnesium'', ''calcium'', ''copper'', ''selenium'']"

definition classifyNodeType :: "string \<Rightarrow> NutrientType" where
  "classifyNodeType ident =
     (let k = toLowerCase ident
      in if startsWith k ''vitamin_'' then Vitamin
         else if k \<in> set MINERALS then Mineral
         else if str_includes k ''hemoglobin'' \<or> str_includes k ''ferritin''
                 \<or> str_includes k ''transferrin'' \<or> str_includes k ''mcv''
                 \<or> str_includes k ''tibc'' \<or> str_includes k ''indicator_''
                 \<or> str_includes k ''homocysteine'' \<or> str_includes k ''anemia''
         then Marker
         else Compound)"

definition clusterOf :: "string \<Rightarrow> Cluster" where
  "clusterOf ident =
     (let k = toLowerCase ident
      in if str_includes k ''iron'' \<or> str_includes k ''hemoglobin''
              \<or> str_includes k ''ferritin'' \<or> str_includes k ''transferrin''
              \<or> str_includes k ''tibc''
         then Iron
         else if startsWith k ''vitamin_b'' then BComplex
         else if k = ''vitamin_a'' \<or> k = ''vitamin_d'' \<or> k = ''vitamin_e'' \<or> k = ''vitamin_k''
         then FatSoluble
         else Other)"

subsection \<open>The relationship parser\<close>

text \<open>
  The non-blank lines of the file: \<open>raw.split(/\r?\n/).filter((l) => l.trim().length > 0)\<close>.
\<close>

definition csv_lines :: "string \<Rightarrow> string list" where
  "csv_lines raw = filter (\<lambda>l. length (trim l) > 0) (split_lines raw)"

text \<open>
  The record pushed for a line with at least five parts: the destructuring
  \<open>[source, target, effect, confidence, ...notesParts] = parts\<close>, the notes joined and
  trimmed, the other four fields trimmed.
\<close>

definition edge_of_parts :: "string list \<Rightarrow> CsvEdge" where
  "edge_of_parts parts =
     (let src = parts ! 0; tgt = parts ! 1; eff = parts ! 2; conf = parts ! 3;
          notesParts = drop 4 parts;
          nts = trim (join '','' notesParts)
      in \<lparr>source = trim src, target = trim tgt, effect = trim eff, confidence = trim conf,
          edge_notes = nts\<rparr>)"

text \<open>The loop over the data lines; the second argument is the array \<open>edges\<close>.\<close>

fun parse_lines :: "string list \<Rightarrow> CsvEdge list \<Rightarrow> CsvEdge list" where
  "parse_lines [] edges = edges"
| "parse_lines (line # rest) edges =
     (let parts = split CHR '','' line
      in if length parts < 5 then parse_lines rest edges
         else parse_lines rest (edges @ [edge_of_parts parts]))"

subsection \<open>The graph builder\<close>

record node_acc =
  acc_id :: string
  degree :: nat
  confidences :: "real list"

record GraphLink =
  link_source :: string
  link_target :: string
  relation :: RelationType
  strength :: real
  confidenceLabel :: string
  link_notes :: string

record GraphNode =
  node_id :: string
  label :: string
  node_type :: NutrientType
  cluster :: Cluster
  importance :: real
  risk :: real
  node_confidence :: real

text \<open>
  \<open>nodeSet\<close> is a \<open>Map\<close>, which keeps its keys in insertion order: an association list
  with \<open>has\<close>, \<open>set\<close> (a new key goes to the end, an old key keeps its place) and the
  update of the object stored under a key (\<open>nodeSet.get(k)!.degree += 1\<close>).  The source
  updates only keys that it has set before, so \<open>get\<close> never returns \<open>undefined\<close>.
\<close>

type_synonym nodeSet = "(string \<times> node_acc) list"

definition Map_has :: "string \<Rightarrow> nodeSet \<Rightarrow> bool" where
  "Map_has k m = (k \<in> set (map fst m))"

fun Map_set :: "string \<Rightarrow> node_acc \<Rightarrow> nodeSet \<Rightarrow> nodeSet" where
  "Map_set k v [] = [(k, v)]"
| "Map_set k v (p # ps) = (if fst p = k then (k, v) # ps else p # Map_set k v ps)"

fun Map_modify :: "string \<Rightarrow> (node_acc \<Rightarrow> node_acc) \<Rightarrow> nodeSet \<Rightarrow> nodeSet" where
  "Map_modify k f [] = []"
| "Map_modify k f (p # ps) = (if fst p = k then (k, f (snd p)) # ps else p # Map_modify k f ps)"

text \<open>The body of \<open>edges.map((e) => ...)\<close>: the updated \<open>nodeSet\<close> and the link returned.\<close>

definition add_edge :: "nodeSet \<Rightarrow> CsvEdge \<Rightarrow> nodeSet \<times> GraphLink" where
  "add_edge nodeSet e =
     (let rel = mapEffectToRelation (effect e);
          confNum = confidenceToNumber (confidence e);
          nodeSet = (if \<not> Map_has (source e) nodeSet
                     then Map_set (source e) \<lparr>acc_id = source e, degree = 0, confidences = []\<rparr> nodeSet
                     else nodeSet);
          nodeSet = (if \<not> Map_has (target e) nodeSet
                     then Map_set (target e) \<lparr>acc_id = target e, degree = 0, confidences = []\<rparr> nodeSet
                     else nodeSet);
          nodeSet = Map_modify (source e) (\<lambda>n. n\<lparr>degree := degree n + 1\<rparr>) nodeSet;
          nodeSet = Map_modify (target e) (\<lambda>n. n\<lparr>degree := degree n + 1\<rparr>) nodeSet;
          nodeSet = Map_modify (source e) (\<lambda>n. n\<lparr>confidences := confidences n @ [confNum]\<rparr>) nodeSet;
          nodeSet = Map_modify (target e) (\<lambda>n. n\<lparr>confidences := confidences n @ [confNum]\<rparr>) nodeSet
      in (nodeSet,
          \<lparr>link_source = source e, link_target = target e, relation = rel, strength = confNum,
           confidenceLabel = confidence e, link_notes = edge_notes e\<rparr>))"

fun build_links :: "CsvEdge list \<Rightarrow> nodeSet \<Rightarrow> nodeSet \<times> GraphLink list" where
  "build_links [] nodeSet = (nodeSet, [])"
| "build_links (e # es) nodeSet =
     (let (nodeSet', link) = add_edge nodeSet e;
          (nodeSet'', links) = build_links es nodeSet'
      in (nodeSet'', link # links))"

text \<open>\<open>Math.max(1, ...degrees)\<close>.\<close>

definition maxDeg :: "nodeSet \<Rightarrow> nat" where
  "maxDeg nodeSet = fold max (map (\<lambda>p. degree (snd p)) nodeSet) 1"

definition node_of_acc :: "nat \<Rightarrow> node_acc \<Rightarrow> GraphNode" where
  "node_of_acc maxDegree n =
     (let confAvg = (if length (confidences n) \<noteq> 0
                     then foldl (+) 0 (confidences n) / real (length (confidences n))
                     else 0.5);
          ident = acc_id n
      in \<lparr>node_id = ident,
          label = replaceAll_underscore ident,
          node_type = classifyNodeType ident,
          cluster = clusterOf ident,
          importance = real (degree n) / real maxDegree,
          risk = (if str_includes ident ''anemia'' then 1 else 0.5),
          node_confidence = confAvg\<rparr>)"

definition build_nodes :: "nodeSet \<Rightarrow> GraphNode list" where
  "build_nodes nodeSet = map (\<lambda>p. node_of_acc (maxDeg nodeSet) (snd p)) nodeSet"

subsection \<open>The request handler\<close>

text \<open>
  \<open>fs.readFile\<close> either returns the text of the file or throws; the handler's
  \<open>catch\<close> reads the thrown value's \<open>message\<close>, which may be absent.  The response is
  the JSON body and the HTTP status given to \<open>NextResponse.json\<close>.
\<close>

datatype read_result = ReadFailed "string option" | ReadOk string

datatype response_body =
    Error_body string
  | Graph_body "GraphNode list" "GraphLink list"

record response =
  body :: response_body
  http_status :: nat

definition GET :: "read_result \<Rightarrow> response" where
  "GET r =
     (case r of
        ReadFailed message \<Rightarrow>
          \<lparr>body = Error_body (case message of Some m \<Rightarrow> m | None \<Rightarrow> ''Failed to load network''),
           http_status = 500\<rparr>
      | ReadOk raw \<Rightarrow>
          (case csv_lines raw of
             [] \<Rightarrow> \<lparr>body = Error_body ''Empty CSV'', http_status = 500\<rparr>
           | header # lines \<Rightarrow>
               if header = [] then \<lparr>body = Error_body ''Empty CSV'', http_status = 500\<rparr>
               else
                 (let edges = parse_lines lines [];
                      (nodeSet, links) = build_links edges [];
                      nodes = build_nodes nodeSet
                  in \<lparr>body = Graph_body nodes links, http_status = 200\<rparr>)))"

section \<open>The snapshot highlighter of the 3D graph component\<close>

definition normalizeId :: "string \<Rightarrow> string" where
  "normalizeId v = replace_ws_runs False (toLowerCase v)"

text \<open>
  The effect that computes \<open>highlightedIds\<close> from the node list and the two name lists of
  the snapshot; only the \<open>id\<close> and the \<open>label\<close> of a node are read.  The sets
  \<open>targets\<close> and \<open>matched\<close> are filled by \<open>forEach\<close>.
\<close>

definition highlightedIds :: "GraphNode list \<Rightarrow> string list \<Rightarrow> string list \<Rightarrow> string set" where
  "highlightedIds nodes deficiencyNames highRiskNames =
     (if length nodes = 0 then {}
      else
        (let targets = fold (\<lambda>name targets. insert (normalizeId name) targets)
                         (deficiencyNames @ highRiskNames) {};
             matched = fold (\<lambda>n matched.
                           let idNorm = normalizeId (node_id n)
                           in if idNorm \<in> targets \<or> normalizeId (label n) \<in> targets
                              then insert (node_id n) matched else matched)
                         nodes {}
         in matched))"

section \<open>Notions of the specification\<close>

text \<open>
  The specification of the graph builder speaks of the endpoints of the accepted edges and,
  for an identifier, of the strength values contributed by the edges touching it (one value
  per endpoint, so a self-loop contributes two).  These two definitions follow the
  specification's words; the graph built by the source is compared with them.
\<close>

definition spec_endpoints :: "CsvEdge list \<Rightarrow> string list" where
  "spec_endpoints edges = concat (map (\<lambda>e. [source e, target e]) edges)"

definition spec_strengths_touching :: "string \<Rightarrow> CsvEdge list \<Rightarrow> real list" where
  "spec_strengths_touching k edges =
     concat (map (\<lambda>e. (if source e = k then [confidenceToNumber (confidence e)] else [])
                      @ (if target e = k then [confidenceToNumber (confidence e)] else []))
               edges)"

section \<open>Properties of the classifier\<close>

lemma REF_get_own:
  "map_of REF marker = Some r \<Longrightarrow> REF_get marker = Some r"
  by (simp add: REF_get_def)

lemma REF_all_proper: "list_all (\<lambda>kr. proper_range (snd kr)) REF"
  by (simp add: REF_def proper_range_def)

lemma REF_proper:
  assumes "map_of REF marker = Some r"
  shows "proper_range r"
proof -
  from assms have "(marker, r) \<in> set REF" by (rule map_of_SomeD)
  with REF_all_proper show ?thesis by (auto simp: list_all_iff)
qed

lemma proper_rangeD:
  "proper_range r \<Longrightarrow> \<exists>l h. ref_low r = Some (Fin l) \<and> ref_high r = Some (Fin h) \<and> l < h"
  by (cases "ref_low r"; cases "ref_high r"; cases "the (ref_low r)"; cases "the (ref_high r)";
      simp add: proper_range_def)

lemma REF_get_cases:
  assumes "REF_get marker = Some r"
  shows "proper_range r \<or> (ref_low r = None \<and> ref_high r = None)"
proof (cases "map_of REF marker")
  case None
  with assms show ?thesis by (auto simp: REF_get_def split: if_splits)
next
  case (Some r')
  with assms have "r' = r" by (simp add: REF_get_def)
  with Some REF_proper show ?thesis by blast
qed

lemma classifyValue_unknown_iff:
  "classifyValue marker val = Unknown \<longleftrightarrow>
     val = None \<or> val = Some NaN \<or> REF_get marker = None"
  by (cases val; cases "REF_get marker"; cases "the val";
      simp add: classifyValue_def isNaN_def)

lemma REF_get_Hemoglobin:
  "REF_get ''Hemoglobin'' = Some \<lparr>ref_low = Some (Fin 12), ref_high = Some (Fin 16)\<rparr>"
  by (simp add: REF_get_def REF_def)

lemma REF_get_constructor:
  "REF_get ''constructor'' = Some \<lparr>ref_low = None, ref_high = None\<rparr>"
  by (simp add: REF_get_def REF_def Object_prototype_keys_def)

lemma REF_get_unobtainium: "REF_get ''unobtainium'' = None"
  by (simp add: REF_get_def REF_def Object_prototype_keys_def)

text \<open>
  An inherited property is found by \<open>REF[marker]\<close> although the table has no such key:
  the marker \<open>constructor\<close> with any number that is not NaN is classified \<open>normal\<close>.
\<close>

lemma classifyValue_constructor:
  "map_of REF ''constructor'' = None \<and> classifyValue ''constructor'' (Some (Fin 5)) = Normal"
  by (simp add: classifyValue_def REF_get_constructor isNaN_def) (simp add: REF_def)

text \<open>
  C1 (as stated): an absent value, a non-finite value (NaN or infinite) or a marker without
  a ReferenceRange is classified \<open>unknown\<close>.  The guard of \<open>classifyValue\<close> is
  \<open>Number.isNaN\<close>, so an infinite reading is compared with the bounds:
  \<open>classifyValue("Hemoglobin", Infinity)\<close> is \<open>high\<close>, not \<open>unknown\<close>.
\<close>

theorem classifyValue_infinite_counterexample:
  "\<not> isFinite PosInf \<and> classifyValue ''Hemoglobin'' (Some PosInf) = High
     \<and> classifyValue ''Hemoglobin'' (Some PosInf) \<noteq> Unknown"
  by (simp add: classifyValue_def REF_get_Hemoglobin isNaN_def isFinite_def js_gt_def)

text \<open>
  C1 (amended): for every marker identifier and every reading value, if the value is absent
  (\<open>undefined\<close> or \<open>null\<close>) or NaN, or the read \<open>REF[marker]\<close> yields nothing, then
  \<open>classifyValue\<close> returns \<open>unknown\<close>.
\<close>

theorem classifyValue_unknown:
  "val = None \<or> val = Some NaN \<or> REF_get marker = None \<Longrightarrow>
     classifyValue marker val = Unknown"
  by (simp add: classifyValue_unknown_iff)

theorem classifyValue_unknown_witness:
  "classifyValue ''Hemoglobin'' None = Unknown
     \<and> classifyValue ''Hemoglobin'' (Some NaN) = Unknown
     \<and> REF_get ''unobtainium'' = None
     \<and> classifyValue ''unobtainium'' (Some (Fin 5)) = Unknown"
  using classifyValue_unknown [of None "''Hemoglobin''"]
    classifyValue_unknown [of "Some NaN" "''Hemoglobin''"]
    classifyValue_unknown [of "Some (Fin 5)" "''unobtainium''"]
    REF_get_unobtainium
  by simp

lemma classifyValue_Fin:
  "REF_get marker = Some r \<Longrightarrow>
     classifyValue marker (Some (Fin v)) =
       (if (case ref_low r of None \<Rightarrow> False | Some l \<Rightarrow> js_lt (Fin v) l) then Low
        else if (case ref_high r of None \<Rightarrow> False | Some h \<Rightarrow> js_gt (Fin v) h) then High
        else Normal)"
  by (simp add: classifyValue_def isNaN_def)

text \<open>
  C2: for a marker with a ReferenceRange and a finite value \<open>v\<close>, the result is \<open>low\<close>
  iff the lower bound \<open>L\<close> is defined and \<open>v < L\<close>; otherwise \<open>high\<close> iff the upper
  bound \<open>H\<close> is defined and \<open>v > H\<close>; otherwise \<open>normal\<close>.  The boundaries are
  inclusive: at \<open>v = L\<close> and at \<open>v = H\<close> the result is \<open>normal\<close>.
\<close>

theorem classifyValue_finite:
  assumes "REF_get marker = Some r"
  shows "(classifyValue marker (Some (Fin v)) = Low \<longleftrightarrow>
            (\<exists>l. ref_low r = Some (Fin l) \<and> v < l))
       \<and> (classifyValue marker (Some (Fin v)) = High \<longleftrightarrow>
            \<not> (\<exists>l. ref_low r = Some (Fin l) \<and> v < l)
            \<and> (\<exists>h. ref_high r = Some (Fin h) \<and> v > h))
       \<and> (classifyValue marker (Some (Fin v)) = Normal \<longleftrightarrow>
            \<not> (\<exists>l. ref_low r = Some (Fin l) \<and> v < l)
            \<and> \<not> (\<exists>h. ref_high r = Some (Fin h) \<and> v > h))
       \<and> (\<forall>l. ref_low r = Some (Fin l) \<longrightarrow> classifyValue marker (Some (Fin l)) = Normal)
       \<and> (\<forall>h. ref_high r = Some (Fin h) \<longrightarrow> classifyValue marker (Some (Fin h)) = Normal)"
proof -
  from REF_get_cases [OF assms] show ?thesis
  proof
    assume "proper_range r"
    then obtain l h where lh: "ref_low r = Some (Fin l)" "ref_high r = Some (Fin h)" "l < h"
      using proper_rangeD by blast
    then show ?thesis
      by (auto simp: classifyValue_Fin [OF assms] js_gt_def)
  next
    assume "ref_low r = None \<and> ref_high r = None"
    then show ?thesis
      by (simp add: classifyValue_Fin [OF assms])
  qed
qed

theorem classifyValue_finite_witness:
  "REF_get ''Hemoglobin'' = Some \<lparr>ref_low = Some (Fin 12), ref_high = Some (Fin 16)\<rparr>
     \<and> classifyValue ''Hemoglobin'' (Some (Fin 10)) = Low
     \<and> classifyValue ''Hemoglobin'' (Some (Fin 12)) = Normal
     \<and> classifyValue ''Hemoglobin'' (Some (Fin 16)) = Normal
     \<and> classifyValue ''Hemoglobin'' (Some (Fin 17)) = High"
  using classifyValue_finite [OF REF_get_Hemoglobin, of 10]
    classifyValue_finite [OF REF_get_Hemoglobin, of 17]
    REF_get_Hemoglobin
  by simp

section \<open>Properties of the schedule builder and of the recommendation notes\<close>

lemma hasIronIssues_iff:
  "hasIronIssues cs \<longleftrightarrow>
     (\<exists>c \<in> set cs. mc_marker c \<in> {''Hemoglobin'', ''ferritin'', ''indicator_iron_serum''}
        \<and> mc_status c = Low)"
  by (auto simp: hasIronIssues_def list_ex_iff)

lemma hasBComplexIssues_iff:
  "hasBComplexIssues cs \<longleftrightarrow>
     (\<exists>c \<in> set cs. mc_marker c \<in> {''vitamin_B12'', ''folate_plasma'', ''vitamin_B6''}
        \<and> (mc_status c = Low \<or> mc_status c = High))"
  by (auto simp: hasBComplexIssues_def list_ex_iff)

lemma hasVitaminDIssue_iff:
  "hasVitaminDIssue cs \<longleftrightarrow>
     (\<exists>c \<in> set cs. mc_marker c = ''vitamin_D'' \<and> mc_status c \<noteq> Normal)"
  by (auto simp: hasVitaminDIssue_def list_ex_iff)

lemma followUps_pos_iff:
  "0 < followUps cs \<longleftrightarrow> (\<exists>c \<in> set cs. mc_status c \<noteq> Normal)"
  by (auto simp: followUps_def filter_empty_conv)

lemma buildSchedule_titles:
  "map title (buildSchedule cs) =
     [''Lifestyle Check-in'', ''Practitioner Review'']
       @ (if hasIronIssues cs then [''Iron Re-evaluation''] else [])
       @ (if hasBComplexIssues cs then [''B-Vitamin Follow-up''] else [])
       @ (if hasVitaminDIssue cs then [''Vitamin D Monitoring''] else [])"
  by (simp add: buildSchedule_def)

lemma buildSchedule_timeframes:
  "map timeframe (buildSchedule cs) =
     [''This week'', if 0 < followUps cs then ''Within 2 weeks'' else ''Within 6 months'']
       @ (if hasIronIssues cs then [''In 6-8 weeks''] else [])
       @ (if hasBComplexIssues cs then [''In 8 weeks''] else [])
       @ (if hasVitaminDIssue cs then [''In 12 weeks''] else [])"
  by (simp add: buildSchedule_def)

lemma buildSchedule_length:
  "length (buildSchedule cs) =
     2 + (if hasIronIssues cs then 1 else 0) + (if hasBComplexIssues cs then 1 else 0)
       + (if hasVitaminDIssue cs then 1 else 0)"
proof -
  have "length (buildSchedule cs) = length (map title (buildSchedule cs))" by simp
  also have "\<dots> = 2 + (if hasIronIssues cs then 1 else 0)
      + (if hasBComplexIssues cs then 1 else 0) + (if hasVitaminDIssue cs then 1 else 0)"
    unfolding buildSchedule_titles by simp
  finally show ?thesis .
qed

lemma buildSchedule_distinct_titles: "distinct (map title (buildSchedule cs))"
  unfolding buildSchedule_titles by simp

text \<open>
  C3: the schedule is a lifestyle check-in item, then a practitioner review item whose
  timeframe is "Within 2 weeks" iff some result has a status other than normal and
  "Within 6 months" otherwise, then one item per true flag in the order iron, B-complex,
  vitamin D.  The iron flag holds iff a marker of the iron subset is low, the B-complex flag
  iff a marker of the B-vitamin subset is low or high, the vitamin-D flag iff the vitamin-D
  marker is not normal.  The item count is 2 plus the number of true flags, between 2 and 5,
  and no two items share a title.
\<close>

theorem buildSchedule_shape:
  "let iron = (\<exists>c \<in> set cs.
         mc_marker c \<in> {''Hemoglobin'', ''ferritin'', ''indicator_iron_serum''}
         \<and> mc_status c = Low);
       bcomplex = (\<exists>c \<in> set cs.
         mc_marker c \<in> {''vitamin_B12'', ''folate_plasma'', ''vitamin_B6''}
         \<and> (mc_status c = Low \<or> mc_status c = High));
       vitd = (\<exists>c \<in> set cs. mc_marker c = ''vitamin_D'' \<and> mc_status c \<noteq> Normal);
       followup = (\<exists>c \<in> set cs. mc_status c \<noteq> Normal)
   in map title (buildSchedule cs) =
        [''Lifestyle Check-in'', ''Practitioner Review'']
          @ (if iron then [''Iron Re-evaluation''] else [])
          @ (if bcomplex then [''B-Vitamin Follow-up''] else [])
          @ (if vitd then [''Vitamin D Monitoring''] else [])
      \<and> map timeframe (buildSchedule cs) =
        [''This week'', if followup then ''Within 2 weeks'' else ''Within 6 months'']
          @ (if iron then [''In 6-8 weeks''] else [])
          @ (if bcomplex then [''In 8 weeks''] else [])
          @ (if vitd then [''In 12 weeks''] else [])
      \<and> length (buildSchedule cs) =
        2 + (if iron then 1 else 0) + (if bcomplex then 1 else 0) + (if vitd then 1 else 0)
      \<and> 2 \<le> length (buildSchedule cs) \<and> length (buildSchedule cs) \<le> 5
      \<and> distinct (map title (buildSchedule cs))"
proof -
  have bounds: "2 \<le> length (buildSchedule cs) \<and> length (buildSchedule cs) \<le> 5"
    unfolding buildSchedule_length by simp
  show ?thesis
    unfolding Let_def hasIronIssues_iff [symmetric] hasBComplexIssues_iff [symmetric]
      hasVitaminDIssue_iff [symmetric] followUps_pos_iff [symmetric]
    using buildSchedule_titles [of cs] buildSchedule_timeframes [of cs]
      buildSchedule_length [of cs] bounds buildSchedule_distinct_titles [of cs]
    by blast
qed

theorem buildSchedule_shape_witness:
  "map title (buildSchedule
       [\<lparr>mc_marker = ''Hemoglobin'', mc_value = Some (Fin 10), mc_status = Low, mc_note = []\<rparr>,
        \<lparr>mc_marker = ''vitamin_D'', mc_value = None, mc_status = Unknown, mc_note = []\<rparr>]) =
     [''Lifestyle Check-in'', ''Practitioner Review'', ''Iron Re-evaluation'',
      ''Vitamin D Monitoring'']
   \<and> map timeframe (buildSchedule
       [\<lparr>mc_marker = ''Hemoglobin'', mc_value = Some (Fin 10), mc_status = Low, mc_note = []\<rparr>,
        \<lparr>mc_marker = ''vitamin_D'', mc_value = None, mc_status = Unknown, mc_note = []\<rparr>]) =
     [''This week'', ''Within 2 weeks'', ''In 6-8 weeks'', ''In 12 weeks'']"
  using buildSchedule_shape
    [of "[\<lparr>mc_marker = ''Hemoglobin'', mc_value = Some (Fin 10), mc_status = Low, mc_note = []\<rparr>,
          \<lparr>mc_marker = ''vitamin_D'', mc_value = None, mc_status = Unknown, mc_note = []\<rparr>]"]
  by (simp add: Let_def)

text \<open>The two scenarios of the specification, through the classifier.\<close>

lemma scenario_hemoglobin_low:
  "classifyValue ''Hemoglobin'' (Some (Fin 10.0)) = Low
   \<and> map title (schedule (buildRecommendations [(''Hemoglobin'', Some (Fin 10.0))])) =
       [''Lifestyle Check-in'', ''Practitioner Review'', ''Iron Re-evaluation'']
   \<and> map timeframe (schedule (buildRecommendations [(''Hemoglobin'', Some (Fin 10.0))])) =
       [''This week'', ''Within 2 weeks'', ''In 6-8 weeks'']"
  by (simp add: buildRecommendations_def classifyEntry_def classifyValue_def REF_get_Hemoglobin
      isNaN_def buildSchedule_def hasIronIssues_def hasBComplexIssues_def hasVitaminDIssue_def
      followUps_def Let_def)

lemma REF_get_ferritin:
  "REF_get ''ferritin'' = Some \<lparr>ref_low = Some (Fin 30), ref_high = Some (Fin 200)\<rparr>"
  by (simp add: REF_get_def REF_def)

lemma scenario_ferritin_normal:
  "classifyValue ''ferritin'' (Some (Fin 50)) = Normal
   \<and> map title (schedule (buildRecommendations [(''ferritin'', Some (Fin 50))])) =
       [''Lifestyle Check-in'', ''Practitioner Review'']"
  by (simp add: buildRecommendations_def classifyEntry_def classifyValue_def REF_get_ferritin
      isNaN_def js_gt_def buildSchedule_def hasIronIssues_def hasBComplexIssues_def
      hasVitaminDIssue_def followUps_def Let_def)

text \<open>
  C10: in \<open>buildRecommendations\<close>, a submitted marker whose status is not \<open>normal\<close> and
  for which \<open>NOTES\<close> has no note under that status gets the note
  "No reference available for this marker.", also when a ReferenceRange exists for the
  marker: magnesium, which has the range 1.7 to 2.3 and no entry in \<open>NOTES\<close>, gets this
  note when it is classified \<open>low\<close>.
\<close>

theorem buildRecommendations_fallback_note:
  "map mc_marker (markers (buildRecommendations values)) = map fst values
   \<and> map mc_status (markers (buildRecommendations values)) =
       map (\<lambda>entry. classifyValue (fst entry) (snd entry)) values
   \<and> (\<forall>m \<in> set (markers (buildRecommendations values)).
        mc_status m \<noteq> Normal \<and> NOTES_get (mc_marker m) (mc_status m) = None
          \<longrightarrow> mc_note m = ''No reference available for this marker.'')
   \<and> REF_get ''magnesium'' = Some \<lparr>ref_low = Some (Fin 1.7), ref_high = Some (Fin 2.3)\<rparr>
   \<and> map mc_status (markers (buildRecommendations [(''magnesium'', Some (Fin 1))])) = [Low]
   \<and> map mc_note (markers (buildRecommendations [(''magnesium'', Some (Fin 1))])) =
        [''No reference available for this marker.'']"
proof -
  have mg: "REF_get ''magnesium'' = Some \<lparr>ref_low = Some (Fin 1.7), ref_high = Some (Fin 2.3)\<rparr>"
    by (simp add: REF_get_def REF_def)
  have st: "classifyValue ''magnesium'' (Some (Fin 1)) = Low"
    by (simp add: classifyValue_def mg isNaN_def)
  have nt: "NOTES_get ''magnesium'' Low = None"
    by (simp add: NOTES_get_def NOTES_def)
  have ex: "map mc_status (markers (buildRecommendations [(''magnesium'', Some (Fin 1))])) = [Low]
     \<and> map mc_note (markers (buildRecommendations [(''magnesium'', Some (Fin 1))])) =
        [''No reference available for this marker.'']"
    by (simp add: buildRecommendations_def classifyEntry_def st nt Let_def)
  have gen: "\<forall>m \<in> set (markers (buildRecommendations values)).
        mc_status m \<noteq> Normal \<and> NOTES_get (mc_marker m) (mc_status m) = None
          \<longrightarrow> mc_note m = ''No reference available for this marker.''"
    by (auto simp: buildRecommendations_def classifyEntry_def Let_def)
  have mk: "map mc_marker (markers (buildRecommendations values)) = map fst values"
    by (simp add: buildRecommendations_def classifyEntry_def Let_def)
  have ms: "map mc_status (markers (buildRecommendations values)) =
       map (\<lambda>entry. classifyValue (fst entry) (snd entry)) values"
    by (simp add: buildRecommendations_def classifyEntry_def Let_def)
  from mk ms gen mg ex show ?thesis by blast
qed

theorem buildRecommendations_fallback_note_witness:
  "map mc_status (markers (buildRecommendations
       [(''Hemoglobin'', Some (Fin 13)), (''zinc'', Some (Fin 200))])) = [Normal, High]
   \<and> NOTES_get ''zinc'' High = None
   \<and> REF_get ''zinc'' \<noteq> None
   \<and> map mc_note (markers (buildRecommendations
       [(''Hemoglobin'', Some (Fin 13)), (''zinc'', Some (Fin 200))])) =
       [''Within the reference range; continue current support.'',
        ''No reference available for this marker.'']"
proof -
  let ?vs = "[(''Hemoglobin'', Some (Fin 13)), (''zinc'', Some (Fin 200))]"
  let ?ms = "markers (buildRecommendations ?vs)"
  have zn: "REF_get ''zinc'' = Some \<lparr>ref_low = Some (Fin 60), ref_high = Some (Fin 120)\<rparr>"
    by (simp add: REF_get_def REF_def)
  have st: "classifyValue ''zinc'' (Some (Fin 200)) = High"
    by (simp add: classifyValue_def zn isNaN_def js_gt_def)
  have hb: "classifyValue ''Hemoglobin'' (Some (Fin 13)) = Normal"
    by (simp add: classifyValue_def REF_get_Hemoglobin isNaN_def js_gt_def)
  have nt: "NOTES_get ''zinc'' High = None" "NOTES_get ''Hemoglobin'' Normal = None"
    by (simp_all add: NOTES_get_def NOTES_def)
  have ms: "?ms = [classifyEntry (''Hemoglobin'', Some (Fin 13)),
                   classifyEntry (''zinc'', Some (Fin 200))]"
    by (simp add: buildRecommendations_def Let_def)
  have z: "mc_marker (classifyEntry (''zinc'', Some (Fin 200))) = ''zinc''"
    "mc_status (classifyEntry (''zinc'', Some (Fin 200))) = High"
    by (simp_all add: classifyEntry_def Let_def st)
  have h: "mc_status (classifyEntry (''Hemoglobin'', Some (Fin 13))) = Normal"
    "mc_note (classifyEntry (''Hemoglobin'', Some (Fin 13))) =
       ''Within the reference range; continue current support.''"
    by (simp_all add: classifyEntry_def Let_def hb nt)
  from buildRecommendations_fallback_note [of ?vs]
  have "\<forall>m \<in> set ?ms. mc_status m \<noteq> Normal \<and> NOTES_get (mc_marker m) (mc_status m) = None
          \<longrightarrow> mc_note m = ''No reference available for this marker.''"
    by blast
  then have "mc_note (classifyEntry (''zinc'', Some (Fin 200))) =
      ''No reference available for this marker.''"
    unfolding ms using z nt by simp
  with ms z h nt zn show ?thesis by simp
qed

section \<open>Properties of the string operations\<close>

lemma split_at_not_Nil: "split_at sep cur s \<noteq> []"
  by (induction s arbitrary: cur) auto

lemma split_at_no_sep: "sep \<notin> set a \<Longrightarrow> split_at sep cur a = [rev cur @ a]"
  by (induction a arbitrary: cur) auto

lemma split_at_append:
  "sep \<notin> set a \<Longrightarrow> split_at sep cur (a @ sep # rest) = (rev cur @ a) # split_at sep [] rest"
  by (induction a arbitrary: cur) auto

lemma split_append:
  "sep \<notin> set a \<Longrightarrow> split sep (a @ sep # rest) = a # split sep rest"
  by (simp add: split_def split_at_append)

lemma join_Cons: "join sep (x # xs) = (if xs = [] then x else x @ sep @ join sep xs)"
  by (cases xs) simp_all

lemma join_split_at: "join [sep] (split_at sep cur s) = rev cur @ s"
proof (induction s arbitrary: cur)
  case Nil
  show ?case by simp
next
  case (Cons c cs)
  show ?case
  proof (cases "c = sep")
    case True
    then show ?thesis
      using Cons.IH [of "[]"] by (simp add: join_Cons split_at_not_Nil)
  next
    case False
    then show ?thesis
      using Cons.IH [of "c # cur"] by simp
  qed
qed

text \<open>Joining the pieces of a split with the separator gives the string back.\<close>

lemma join_split: "join [sep] (split sep s) = s"
  by (simp add: split_def join_split_at)

lemma trim_Nil: "trim [] = []"
  by (simp add: trim_def)

section \<open>Properties of the relationship parser\<close>

lemma parse_lines_acc:
  "parse_lines ls acc =
     acc @ map (\<lambda>l. edge_of_parts (split CHR '','' l))
             (filter (\<lambda>l. 5 \<le> length (split CHR '','' l)) ls)"
  by (induction ls arbitrary: acc) (simp_all add: Let_def not_less)

lemma split_five_fields:
  assumes "CHR '','' \<notin> set a" "CHR '','' \<notin> set b" "CHR '','' \<notin> set c" "CHR '','' \<notin> set d"
  shows "split CHR '','' (a @ '','' @ b @ '','' @ c @ '','' @ d @ '','' @ rest) =
           a # b # c # d # split CHR '','' rest"
  using assms by (simp add: split_append)

lemma edge_of_five_fields:
  "edge_of_parts (a # b # c # d # split CHR '','' rest) =
     \<lparr>source = trim a, target = trim b, effect = trim c, confidence = trim d,
      edge_notes = trim rest\<rparr>"
  by (simp add: edge_of_parts_def join_split)

lemma csv_lines_nonblank: "l \<in> set (csv_lines raw) \<Longrightarrow> l \<noteq> []"
  by (auto simp: csv_lines_def trim_Nil)

lemma GET_graph:
  assumes "csv_lines raw = header # ls"
  shows "GET (ReadOk raw) =
           \<lparr>body = Graph_body (build_nodes (fst (build_links (parse_lines ls []) [])))
                     (snd (build_links (parse_lines ls []) [])),
            http_status = 200\<rparr>"
proof -
  have "header \<noteq> []"
    using csv_lines_nonblank [of header raw] assms by simp
  then show ?thesis
    by (simp add: GET_def assms Let_def split_beta)
qed

text \<open>
  C4 (as stated): a table with a header line and no data rows makes the invocation fail
  with an explicit error.  The handler tests only whether there is a first non-blank line:
  for the file that holds the header line alone it answers with status 200 and the graph
  with empty node and edge lists.
\<close>

theorem GET_header_only_counterexample:
  "csv_lines (''source,target,effect,confidence,notes'' @ [CHR 0x0A]) =
     [''source,target,effect,confidence,notes'']
   \<and> GET (ReadOk (''source,target,effect,confidence,notes'' @ [CHR 0x0A])) =
     \<lparr>body = Graph_body [] [], http_status = 200\<rparr>"
  by (simp add: GET_def csv_lines_def split_lines_def trim_def is_ws_def build_nodes_def)

text \<open>
  C4 (amended): when the relationship table contains no non-blank line at all (not even a
  header line), the invocation fails with the error result "Empty CSV" and status 500; a read
  failure reports the thrown error's own message, or "Failed to load network" when it has
  none, so the two differ unless that message is itself "Empty CSV".  When the table contains
  a header line but no data rows, the invocation returns status 200 with empty node and edge
  lists.
\<close>

theorem GET_empty_table:
  "(csv_lines raw = [] \<longrightarrow>
      GET (ReadOk raw) = \<lparr>body = Error_body ''Empty CSV'', http_status = 500\<rparr>)
   \<and> (csv_lines raw = [header] \<longrightarrow>
      GET (ReadOk raw) = \<lparr>body = Graph_body [] [], http_status = 200\<rparr>)
   \<and> GET (ReadFailed message) =
      \<lparr>body = Error_body (case message of Some m \<Rightarrow> m | None \<Rightarrow> ''Failed to load network''),
       http_status = 500\<rparr>
   \<and> (message \<noteq> Some ''Empty CSV'' \<longrightarrow>
      GET (ReadFailed message) \<noteq> \<lparr>body = Error_body ''Empty CSV'', http_status = 500\<rparr>)"
proof -
  have a: "csv_lines raw = [] \<longrightarrow>
      GET (ReadOk raw) = \<lparr>body = Error_body ''Empty CSV'', http_status = 500\<rparr>"
    by (simp add: GET_def)
  have b: "csv_lines raw = [header] \<longrightarrow>
      GET (ReadOk raw) = \<lparr>body = Graph_body [] [], http_status = 200\<rparr>"
    using GET_graph [of raw header "[]"] by (simp add: build_nodes_def)
  have c: "GET (ReadFailed message) =
      \<lparr>body = Error_body (case message of Some m \<Rightarrow> m | None \<Rightarrow> ''Failed to load network''),
       http_status = 500\<rparr>"
    by (simp add: GET_def)
  have d: "message \<noteq> Some ''Empty CSV'' \<longrightarrow>
      GET (ReadFailed message) \<noteq> \<lparr>body = Error_body ''Empty CSV'', http_status = 500\<rparr>"
    by (cases message) (simp_all add: GET_def)
  from a b c d show ?thesis by blast
qed

theorem GET_empty_table_witness:
  "csv_lines [CHR '' '', CHR 0x0A] = []
   \<and> GET (ReadOk [CHR '' '', CHR 0x0A]) = \<lparr>body = Error_body ''Empty CSV'', http_status = 500\<rparr>
   \<and> csv_lines ''source,target,effect,confidence,notes'' = [''source,target,effect,confidence,notes'']
   \<and> GET (ReadOk ''source,target,effect,confidence,notes'') =
       \<lparr>body = Graph_body [] [], http_status = 200\<rparr>
   \<and> GET (ReadFailed (Some ''ENOENT: no such file or directory'')) =
       \<lparr>body = Error_body ''ENOENT: no such file or directory'', http_status = 500\<rparr>
   \<and> GET (ReadFailed (Some ''ENOENT: no such file or directory'')) \<noteq>
       \<lparr>body = Error_body ''Empty CSV'', http_status = 500\<rparr>"
proof -
  have l1: "csv_lines [CHR '' '', CHR 0x0A] = []"
    by (simp add: csv_lines_def split_lines_def trim_def is_ws_def)
  have l2: "csv_lines ''source,target,effect,confidence,notes'' =
      [''source,target,effect,confidence,notes'']"
    by (simp add: csv_lines_def split_lines_def trim_def is_ws_def)
  show ?thesis
    using GET_empty_table [of "[CHR '' '', CHR 0x0A]" "[]" "Some ''ENOENT: no such file or directory''"]
      GET_empty_table [of "''source,target,effect,confidence,notes''"
        "''source,target,effect,confidence,notes''" None] l1 l2
    by simp
qed

text \<open>
  C5: a data line that splits on commas into fewer than 5 fields is skipped without error;
  every accepted line produces exactly one record, in input order with duplicates retained;
  the notes field of an accepted record is the rejoining with "," of all fields beyond the
  fourth, trimmed at both ends like every field of the record, so embedded commas in notes
  are reconstructed: a line \<open>a,b,c,d,rest\<close> whose first four fields are free of commas
  gives the trimmed fields and the trimmed \<open>rest\<close>, commas included.
\<close>

theorem parse_lines_spec:
  "parse_lines ls [] =
     map (\<lambda>l. edge_of_parts (split CHR '','' l))
       (filter (\<lambda>l. 5 \<le> length (split CHR '','' l)) ls)
   \<and> (length (split CHR '','' l) < 5 \<longrightarrow> parse_lines (ls @ l # ls') [] = parse_lines (ls @ ls') [])
   \<and> (5 \<le> length (split CHR '','' l) \<longrightarrow>
        parse_lines (ls @ [l]) [] = parse_lines ls [] @ [edge_of_parts (split CHR '','' l)]
        \<and> edge_notes (edge_of_parts (split CHR '','' l)) =
            trim (join '','' (drop 4 (split CHR '','' l))))
   \<and> (CHR '','' \<notin> set a \<and> CHR '','' \<notin> set b \<and> CHR '','' \<notin> set c \<and> CHR '','' \<notin> set d \<longrightarrow>
        parse_lines [a @ '','' @ b @ '','' @ c @ '','' @ d @ '','' @ rest] [] =
          [\<lparr>source = trim a, target = trim b, effect = trim c, confidence = trim d,
            edge_notes = trim rest\<rparr>])
   \<and> (csv_lines raw = header # ls \<longrightarrow>
        (\<exists>nodes. GET (ReadOk raw) =
           \<lparr>body = Graph_body nodes (snd (build_links (parse_lines ls []) [])),
            http_status = 200\<rparr>))"
proof -
  have p1: "parse_lines ls [] =
     map (\<lambda>l. edge_of_parts (split CHR '','' l))
       (filter (\<lambda>l. 5 \<le> length (split CHR '','' l)) ls)"
    by (simp add: parse_lines_acc)
  have p2: "length (split CHR '','' l) < 5 \<longrightarrow>
      parse_lines (ls @ l # ls') [] = parse_lines (ls @ ls') []"
    by (simp add: parse_lines_acc)
  have p3: "5 \<le> length (split CHR '','' l) \<longrightarrow>
        parse_lines (ls @ [l]) [] = parse_lines ls [] @ [edge_of_parts (split CHR '','' l)]
        \<and> edge_notes (edge_of_parts (split CHR '','' l)) =
            trim (join '','' (drop 4 (split CHR '','' l)))"
    by (simp add: parse_lines_acc edge_of_parts_def)
  have p4: "CHR '','' \<notin> set a \<and> CHR '','' \<notin> set b \<and> CHR '','' \<notin> set c \<and> CHR '','' \<notin> set d \<longrightarrow>
        parse_lines [a @ '','' @ b @ '','' @ c @ '','' @ d @ '','' @ rest] [] =
          [\<lparr>source = trim a, target = trim b, effect = trim c, confidence = trim d,
            edge_notes = trim rest\<rparr>]"
  proof
    assume h: "CHR '','' \<notin> set a \<and> CHR '','' \<notin> set b \<and> CHR '','' \<notin> set c \<and> CHR '','' \<notin> set d"
    then have s: "split CHR '','' (a @ '','' @ b @ '','' @ c @ '','' @ d @ '','' @ rest) =
        a # b # c # d # split CHR '','' rest"
      by (intro split_five_fields) simp_all
    have n: "split CHR '','' rest \<noteq> []"
      by (simp add: split_def split_at_not_Nil)
    then have five: "5 \<le> length (a # b # c # d # split CHR '','' rest)"
      by (cases "split CHR '','' rest") simp_all
    from s have s': "split CHR '','' (a @ CHR '','' # b @ CHR '','' # c @ CHR '','' # d @ CHR '','' # rest) =
        a # b # c # d # split CHR '','' rest"
      by simp
    from five show "parse_lines [a @ '','' @ b @ '','' @ c @ '','' @ d @ '','' @ rest] [] =
          [\<lparr>source = trim a, target = trim b, effect = trim c, confidence = trim d,
            edge_notes = trim rest\<rparr>]"
      by (simp add: parse_lines_acc s' edge_of_five_fields)
  qed
  have p5: "csv_lines raw = header # ls \<longrightarrow>
        (\<exists>nodes. GET (ReadOk raw) =
           \<lparr>body = Graph_body nodes (snd (build_links (parse_lines ls []) [])),
            http_status = 200\<rparr>)"
    using GET_graph [of raw header ls] by blast
  from p1 p2 p3 p4 p5 show ?thesis by blast
qed

theorem parse_lines_spec_witness:
  "length (split CHR '','' ''a,b,c'') < 5
   \<and> 5 \<le> length (split CHR '','' ''vitamin_d,calcium,boosts,High,Improves absorption, see note X'')
   \<and> parse_lines
        [''a,b,c'', ''vitamin_d,calcium,boosts,High,Improves absorption, see note X''] [] =
       [\<lparr>source = ''vitamin_d'', target = ''calcium'', effect = ''boosts'', confidence = ''High'',
         edge_notes = ''Improves absorption, see note X''\<rparr>]
   \<and> edge_notes (edge_of_parts
        (split CHR '','' ''vitamin_d,calcium,boosts,High,Improves absorption, see note X'')) =
       ''Improves absorption, see note X''
   \<and> csv_lines (''source,target,effect,confidence,notes'' @ [CHR 0x0A] @ ''a,b,c'') =
       [''source,target,effect,confidence,notes'', ''a,b,c'']
   \<and> http_status (GET (ReadOk (''source,target,effect,confidence,notes'' @ [CHR 0x0A] @ ''a,b,c'')))
       = 200"
proof -
  have len3: "length (split CHR '','' ''a,b,c'') < 5"
    by (simp add: split_def)
  have len5: "5 \<le> length (split CHR '','' ''vitamin_d,calcium,boosts,High,Improves absorption, see note X'')"
    by (simp add: split_def)
  have lines: "csv_lines (''source,target,effect,confidence,notes'' @ [CHR 0x0A] @ ''a,b,c'') =
       [''source,target,effect,confidence,notes'', ''a,b,c'']"
    by (simp add: csv_lines_def split_lines_def trim_def is_ws_def)
  have commas: "CHR '','' \<notin> set ''vitamin_d'' \<and> CHR '','' \<notin> set ''calcium''
      \<and> CHR '','' \<notin> set ''boosts'' \<and> CHR '','' \<notin> set ''High''"
    by simp
  note inst = parse_lines_spec
    [where ls = "[]" and l = "''a,b,c''"
       and ls' = "[''vitamin_d,calcium,boosts,High,Improves absorption, see note X'']"
       and a = "''vitamin_d''" and b = "''calcium''" and c = "''boosts''" and d = "''High''"
       and rest = "''Improves absorption, see note X''"]
  note inst' = parse_lines_spec
    [where ls = "[''a,b,c'']"
       and l = "''vitamin_d,calcium,boosts,High,Improves absorption, see note X''"
       and raw = "''source,target,effect,confidence,notes'' @ [CHR 0x0A] @ ''a,b,c''"
       and header = "''source,target,effect,confidence,notes''"]
  note p2 = inst [THEN conjunct2, THEN conjunct1, rule_format, OF len3]
  note p4 = inst [THEN conjunct2, THEN conjunct2, THEN conjunct2, THEN conjunct1, rule_format,
      OF commas]
  note p3 = inst' [THEN conjunct2, THEN conjunct2, THEN conjunct1, rule_format, OF len5]
  note p5 = inst' [THEN conjunct2, THEN conjunct2, THEN conjunct2, THEN conjunct2, rule_format,
      OF lines]
  from p2 have skip: "parse_lines
        [''a,b,c'', ''vitamin_d,calcium,boosts,High,Improves absorption, see note X''] [] =
      parse_lines [''vitamin_d,calcium,boosts,High,Improves absorption, see note X''] []"
    by (simp del: parse_lines.simps)
  from p4 have one: "parse_lines
        [''vitamin_d,calcium,boosts,High,Improves absorption, see note X''] [] =
      [\<lparr>source = ''vitamin_d'', target = ''calcium'', effect = ''boosts'', confidence = ''High'',
        edge_notes = ''Improves absorption, see note X''\<rparr>]"
    by (simp add: trim_def is_ws_def del: parse_lines.simps)
  from p3 have nts: "edge_notes (edge_of_parts
        (split CHR '','' ''vitamin_d,calcium,boosts,High,Improves absorption, see note X'')) =
       ''Improves absorption, see note X''"
    by (simp add: split_def trim_def is_ws_def del: parse_lines.simps)
  from p5 have ok: "http_status (GET (ReadOk
        (''source,target,effect,confidence,notes'' @ [CHR 0x0A] @ ''a,b,c''))) = 200"
    by auto
  from len3 len5 skip one nts lines ok show ?thesis
    by (simp del: parse_lines.simps)
qed

section \<open>The risk of a node\<close>

text \<open>
  C8: the risk of a node is 1.0 if the lowercase form of its identifier contains "anemia",
  and 0.5 otherwise.  The handler tests the identifier as parsed, without lowering its case,
  although \<open>classifyNodeType\<close> and \<open>clusterOf\<close> lower it for the same test: the node
  \<open>Iron_Deficiency_Anemia\<close> has the type \<open>marker\<close> (found through "anemia") and the
  risk 0.5.
\<close>

theorem risk_ignores_letter_case:
  "str_includes (toLowerCase ''Iron_Deficiency_Anemia'') ''anemia''
   \<and> classifyNodeType ''Iron_Deficiency_Anemia'' = Marker
   \<and> GET (ReadOk (''source,target,effect,confidence,notes'' @ [CHR 0x0A]
                  @ ''Iron_Deficiency_Anemia,iron,inhibits,High,n'')) =
       \<lparr>body = Graph_body
          [\<lparr>node_id = ''Iron_Deficiency_Anemia'', label = ''Iron Deficiency Anemia'',
            node_type = Marker, cluster = Iron, importance = 1, risk = 0.5,
            node_confidence = 0.9\<rparr>,
           \<lparr>node_id = ''iron'', label = ''iron'', node_type = Mineral, cluster = Iron,
            importance = 1, risk = 0.5, node_confidence = 0.9\<rparr>]
          [\<lparr>link_source = ''Iron_Deficiency_Anemia'', link_target = ''iron'',
            relation = Antagonist, strength = 0.9, confidenceLabel = ''High'',
            link_notes = ''n''\<rparr>],
        http_status = 200\<rparr>"
  by code_simp

section \<open>Properties of the graph builder\<close>

lemma Map_set_fresh: "k \<notin> set (map fst m) \<Longrightarrow> Map_set k v m = m @ [(k, v)]"
  by (induction m) auto

lemma keys_Map_modify: "map fst (Map_modify k f m) = map fst m"
  by (induction m) auto

lemma map_of_Map_modify:
  "map_of (Map_modify k f m) = (map_of m)(k := map_option f (map_of m k))"
  by (induction m) (auto simp: fun_eq_iff)

lemma sum_degree_Map_modify_inc:
  "k \<in> fst ` set m \<Longrightarrow>
     sum_list (map (\<lambda>p. degree (snd p)) (Map_modify k (\<lambda>n. n\<lparr>degree := Suc (degree n)\<rparr>) m)) =
       Suc (sum_list (map (\<lambda>p. degree (snd p)) m))"
  by (induction m) auto

lemma sum_degree_Map_modify_conf:
  "sum_list (map (\<lambda>p. degree (snd p)) (Map_modify k (\<lambda>n. n\<lparr>confidences := g n\<rparr>) m)) =
       sum_list (map (\<lambda>p. degree (snd p)) m)"
  by (induction m) auto

lemma dom_Map_modify: "fst ` set (Map_modify k f m) = fst ` set m"
  using keys_Map_modify [of k f m] by (metis set_map)

lemma ensure_eq:
  "(if \<not> Map_has k m then Map_set k v m else m) =
     (if k \<in> set (map fst m) then m else m @ [(k, v)])"
  by (simp add: Map_has_def Map_set_fresh)

lemma add_edge_keys:
  "map fst (fst (add_edge m e)) =
     map fst m @ (if source e \<in> set (map fst m) then [] else [source e])
       @ (if target e \<in> set (map fst m) \<or> target e = source e then [] else [target e])"
  by (simp add: add_edge_def Let_def ensure_eq keys_Map_modify)

lemma add_edge_sum_degree:
  "sum_list (map (\<lambda>p. degree (snd p)) (fst (add_edge m e))) =
     sum_list (map (\<lambda>p. degree (snd p)) m) + 2"
  by (simp add: add_edge_def Let_def ensure_eq dom_Map_modify sum_degree_Map_modify_inc
      sum_degree_Map_modify_conf)

lemma map_of_snoc_fresh:
  assumes "k \<notin> fst ` set m"
  shows "map_of (m @ [(k, v)]) = (map_of m)(k \<mapsto> v)"
proof -
  from assms have "map_of m k = None" by (simp add: map_of_eq_None_iff)
  then show ?thesis
    by (auto simp: fun_eq_iff map_add_def split: option.splits)
qed

lemma ensure_map_of:
  "map_of (if \<not> Map_has k m then Map_set k v m else m) =
     (case map_of m k of None \<Rightarrow> (map_of m)(k \<mapsto> v) | Some a \<Rightarrow> map_of m)"
proof (cases "k \<in> fst ` set m")
  case True
  then have "map_of m k \<noteq> None" by (simp add: map_of_eq_None_iff)
  with True show ?thesis by (auto simp: Map_has_def)
next
  case False
  then have "map_of m k = None" by (simp add: map_of_eq_None_iff)
  with False map_of_snoc_fresh [OF False, of v] show ?thesis
    by (simp add: Map_has_def Map_set_fresh)
qed

lemma add_edge_map_of:
  "map_of (fst (add_edge m e)) k =
     (if k = source e \<or> k = target e
      then Some (let a = (case map_of m k of Some a \<Rightarrow> a
                          | None \<Rightarrow> \<lparr>acc_id = k, degree = 0, confidences = []\<rparr>);
                     c = confidenceToNumber (confidence e)
                 in a\<lparr>degree := degree a + (if source e = k then 1 else 0)
                                   + (if target e = k then 1 else 0),
                      confidences := confidences a @ (if source e = k then [c] else [])
                                   @ (if target e = k then [c] else [])\<rparr>)
      else map_of m k)"
  unfolding add_edge_def Let_def fst_conv map_of_Map_modify ensure_map_of
  by (auto split: option.splits)

lemma snd_add_edge:
  "snd (add_edge m e) =
     \<lparr>link_source = source e, link_target = target e,
      relation = mapEffectToRelation (effect e),
      strength = confidenceToNumber (confidence e),
      confidenceLabel = confidence e, link_notes = edge_notes e\<rparr>"
  by (simp add: add_edge_def Let_def)

lemma build_links_Cons:
  "build_links (e # es) m =
     (fst (build_links es (fst (add_edge m e))),
      snd (add_edge m e) # snd (build_links es (fst (add_edge m e))))"
  by (simp add: split_beta Let_def)

lemma length_build_links: "length (snd (build_links es m)) = length es"
  by (induction es arbitrary: m) (simp_all add: build_links_Cons del: build_links.simps(2))

lemma build_links_keys:
  "distinct (map fst m) \<Longrightarrow>
     distinct (map fst (fst (build_links es m)))
     \<and> set (map fst (fst (build_links es m))) = set (map fst m) \<union> set (spec_endpoints es)"
proof (induction es arbitrary: m)
  case Nil
  then show ?case by (simp add: spec_endpoints_def)
next
  case (Cons e es)
  have d: "distinct (map fst (fst (add_edge m e)))"
    using Cons.prems by (auto simp: add_edge_keys)
  have s: "set (map fst (fst (add_edge m e))) = set (map fst m) \<union> {source e, target e}"
    by (auto simp: add_edge_keys)
  from Cons.IH [OF d] s show ?case
    by (auto simp: build_links_Cons spec_endpoints_def simp del: build_links.simps(2))
qed

lemma build_links_sum_degree:
  "sum_list (map (\<lambda>p. degree (snd p)) (fst (build_links es m))) =
     sum_list (map (\<lambda>p. degree (snd p)) m) + 2 * length es"
  by (induction es arbitrary: m)
    (simp_all add: build_links_Cons add_edge_sum_degree del: build_links.simps(2))

lemma spec_strengths_touching_snoc:
  "spec_strengths_touching k (es @ [e]) =
     spec_strengths_touching k es
       @ (if source e = k then [confidenceToNumber (confidence e)] else [])
       @ (if target e = k then [confidenceToNumber (confidence e)] else [])"
  by (simp add: spec_strengths_touching_def)

lemma build_links_acc:
  assumes "\<And>k. case map_of m k of
              None \<Rightarrow> spec_strengths_touching k ds = []
            | Some a \<Rightarrow> acc_id a = k \<and> confidences a = spec_strengths_touching k ds
                        \<and> degree a = length (confidences a)"
  shows "case map_of (fst (build_links es m)) k of
              None \<Rightarrow> spec_strengths_touching k (ds @ es) = []
            | Some a \<Rightarrow> acc_id a = k \<and> confidences a = spec_strengths_touching k (ds @ es)
                        \<and> degree a = length (confidences a)"
  using assms
proof (induction es arbitrary: m ds k)
  case Nil
  from Nil [of k] show ?case by (simp split: option.splits)
next
  case (Cons e es)
  have step: "case map_of (fst (add_edge m e)) k' of
              None \<Rightarrow> spec_strengths_touching k' (ds @ [e]) = []
            | Some a \<Rightarrow> acc_id a = k' \<and> confidences a = spec_strengths_touching k' (ds @ [e])
                        \<and> degree a = length (confidences a)" for k'
    using Cons.prems [of k']
    by (auto simp: add_edge_map_of spec_strengths_touching_snoc Let_def split: option.splits)
  from Cons.IH [where m = "fst (add_edge m e)" and ds = "ds @ [e]" and k = k, OF step] show ?case
    by (simp add: build_links_Cons split: option.splits del: build_links.simps(2))
qed

lemma fold_max_ge_init: "(b::nat) \<le> fold max xs b"
  by (induction xs arbitrary: b) (auto intro: order_trans [OF max.cobounded2])

lemma fold_max_ge_elem: "(x::nat) \<in> set xs \<Longrightarrow> x \<le> fold max xs b"
proof (induction xs arbitrary: b)
  case Nil
  then show ?case by simp
next
  case (Cons y ys)
  show ?case
  proof (cases "x = y")
    case True
    have "y \<le> max y b" by simp
    also have "\<dots> \<le> fold max ys (max y b)" by (rule fold_max_ge_init)
    finally show ?thesis using True by simp
  next
    case False
    with Cons show ?thesis by simp
  qed
qed

lemma maxDeg_pos: "1 \<le> maxDeg m"
  unfolding maxDeg_def by (rule fold_max_ge_init)

lemma degree_le_maxDeg: "p \<in> set m \<Longrightarrow> degree (snd p) \<le> maxDeg m"
  unfolding maxDeg_def by (rule fold_max_ge_elem) simp

lemma importance_bounds:
  assumes "p \<in> set m"
  shows "0 \<le> importance (node_of_acc (maxDeg m) (snd p))
       \<and> importance (node_of_acc (maxDeg m) (snd p)) \<le> 1"
proof -
  have pos: "0 < real (maxDeg m)" using maxDeg_pos [of m] by simp
  have le: "real (degree (snd p)) \<le> real (maxDeg m)"
    using degree_le_maxDeg [OF assms] by simp
  have imp: "importance (node_of_acc (maxDeg m) (snd p)) = real (degree (snd p)) / real (maxDeg m)"
    by (simp add: node_of_acc_def Let_def)
  from pos le show ?thesis unfolding imp by simp
qed

lemma confidenceToNumber_range: "0 \<le> confidenceToNumber c \<and> confidenceToNumber c \<le> 1"
  by (simp add: confidenceToNumber_def Let_def)

lemma spec_strengths_touching_range:
  "x \<in> set (spec_strengths_touching k es) \<Longrightarrow> 0 \<le> x \<and> x \<le> 1"
  using confidenceToNumber_range
  by (auto simp: spec_strengths_touching_def split: if_splits)

lemma foldl_plus_sum_list: "foldl (+) (a::real) xs = a + sum_list xs"
  by (induction xs arbitrary: a) simp_all

lemma sum_list_unit_bounds:
  "(\<And>x. x \<in> set xs \<Longrightarrow> 0 \<le> x \<and> x \<le> (1::real)) \<Longrightarrow>
     0 \<le> sum_list xs \<and> sum_list xs \<le> real (length xs)"
proof (induction xs)
  case Nil
  then show ?case by simp
next
  case (Cons y ys)
  from Cons.prems [of y] have y: "0 \<le> y" "y \<le> 1" by simp_all
  from Cons.IH Cons.prems have "0 \<le> sum_list ys \<and> sum_list ys \<le> real (length ys)" by simp
  with y show ?case by simp
qed

lemma node_confidence_bounds:
  assumes "\<And>x. x \<in> set (confidences a) \<Longrightarrow> 0 \<le> x \<and> x \<le> 1"
  shows "0 \<le> node_confidence (node_of_acc d a) \<and> node_confidence (node_of_acc d a) \<le> 1"
proof (cases "confidences a = []")
  case True
  then show ?thesis by (simp add: node_of_acc_def Let_def)
next
  case False
  then have len: "0 < real (length (confidences a))" by simp
  from sum_list_unit_bounds [OF assms]
  have b: "0 \<le> sum_list (confidences a)" "sum_list (confidences a) \<le> real (length (confidences a))"
    by simp_all
  have c: "node_confidence (node_of_acc d a) = sum_list (confidences a) / real (length (confidences a))"
    using False by (simp add: node_of_acc_def Let_def foldl_plus_sum_list)
  from len b show ?thesis unfolding c by simp
qed

lemma count_endpoints:
  "length (spec_strengths_touching k es) = count_list (spec_endpoints es) k"
  by (induction es) (simp_all add: spec_strengths_touching_def spec_endpoints_def)

lemma build_links_Nil_acc:
  "case map_of (fst (build_links es [])) k of
     None \<Rightarrow> spec_strengths_touching k es = []
   | Some a \<Rightarrow> acc_id a = k \<and> confidences a = spec_strengths_touching k es
               \<and> degree a = length (confidences a)"
proof -
  have base: "case map_of ([] :: nodeSet) k' of
       None \<Rightarrow> spec_strengths_touching k' [] = []
     | Some a \<Rightarrow> acc_id a = k' \<and> confidences a = spec_strengths_touching k' []
                 \<and> degree a = length (confidences a)" for k'
    by (simp add: spec_strengths_touching_def)
  from build_links_acc [where m = "[]" and ds = "[]" and es = es and k = k, OF base]
  show ?thesis by (simp cong: option.case_cong)
qed

lemma build_links_entries:
  assumes "(k, a) \<in> set (fst (build_links es []))"
  shows "acc_id a = k \<and> confidences a = spec_strengths_touching k es
         \<and> degree a = count_list (spec_endpoints es) k"
proof -
  have "distinct (map fst (fst (build_links es [])))"
    using build_links_keys [of "[]" es] by simp
  with assms have "map_of (fst (build_links es [])) k = Some a" by simp
  with build_links_Nil_acc [where es = es and k = k] show ?thesis
    by (simp add: count_endpoints)
qed

lemma node_id_of_acc: "node_id (node_of_acc d a) = acc_id a"
  by (simp add: node_of_acc_def Let_def)

lemma build_nodes_ids:
  "map node_id (build_nodes (fst (build_links es []))) = map fst (fst (build_links es []))"
  using build_links_entries [of _ _ es]
  by (auto simp: build_nodes_def node_id_of_acc)

text \<open>
  C6: for every list of accepted edge records, the number of nodes is the number of distinct
  endpoint identifiers and every endpoint appears exactly once among the nodes; the degree
  of a node counts the edge endpoints equal to its identifier, so the degrees sum to twice
  the number of edges (a self-loop counts twice for its node); there is one link per record;
  and the importance and the confidence of every node lie between 0 and 1.
\<close>

theorem build_graph_invariants:
  "let (nodeSet, links) = build_links edges [];
       nodes = build_nodes nodeSet
   in length nodes = card (set (spec_endpoints edges))
      \<and> distinct (map node_id nodes)
      \<and> set (map node_id nodes) = set (spec_endpoints edges)
      \<and> (\<forall>p \<in> set nodeSet. degree (snd p) = count_list (spec_endpoints edges) (fst p))
      \<and> sum_list (map (\<lambda>p. degree (snd p)) nodeSet) = 2 * length edges
      \<and> length links = length edges
      \<and> (\<forall>n \<in> set nodes. 0 \<le> importance n \<and> importance n \<le> 1
            \<and> 0 \<le> node_confidence n \<and> node_confidence n \<le> 1)"
proof -
  let ?ns = "fst (build_links edges [])"
  let ?nodes = "build_nodes ?ns"
  have keys: "distinct (map fst ?ns)" "set (map fst ?ns) = set (spec_endpoints edges)"
    using build_links_keys [of "[]" edges] by simp_all
  have ids: "map node_id ?nodes = map fst ?ns" by (rule build_nodes_ids)
  have len: "length ?nodes = card (set (spec_endpoints edges))"
  proof -
    have "length ?nodes = length (map fst ?ns)" by (simp add: build_nodes_def)
    also have "\<dots> = card (set (map fst ?ns))" using distinct_card [OF keys(1)] by simp
    finally show ?thesis using keys(2) by simp
  qed
  have deg: "\<forall>p \<in> set ?ns. degree (snd p) = count_list (spec_endpoints edges) (fst p)"
    using build_links_entries [of _ _ edges] by auto
  have sum: "sum_list (map (\<lambda>p. degree (snd p)) ?ns) = 2 * length edges"
    by (simp add: build_links_sum_degree)
  have links: "length (snd (build_links edges [])) = length edges"
    by (rule length_build_links)
  have bounds: "\<forall>n \<in> set ?nodes. 0 \<le> importance n \<and> importance n \<le> 1
            \<and> 0 \<le> node_confidence n \<and> node_confidence n \<le> 1"
  proof
    fix n assume "n \<in> set ?nodes"
    then obtain p where p: "p \<in> set ?ns" and n: "n = node_of_acc (maxDeg ?ns) (snd p)"
      by (auto simp: build_nodes_def)
    from p have "(fst p, snd p) \<in> set ?ns" by simp
    from build_links_entries [OF this]
    have "confidences (snd p) = spec_strengths_touching (fst p) edges" by simp
    then have "\<And>x. x \<in> set (confidences (snd p)) \<Longrightarrow> 0 \<le> x \<and> x \<le> 1"
      using spec_strengths_touching_range by simp
    from node_confidence_bounds [OF this] importance_bounds [OF p] n
    show "0 \<le> importance n \<and> importance n \<le> 1
            \<and> 0 \<le> node_confidence n \<and> node_confidence n \<le> 1"
      by simp
  qed
  have dist: "distinct (map node_id ?nodes)"
    unfolding ids by (rule keys(1))
  have idset: "set (map node_id ?nodes) = set (spec_endpoints edges)"
    unfolding ids by (rule keys(2))
  from len dist idset deg sum links bounds show ?thesis
    by (simp add: split_beta Let_def)
qed

theorem build_graph_invariants_witness:
  "map node_id (build_nodes (fst (build_links
       [\<lparr>source = ''iron'', target = ''iron'', effect = ''supports'', confidence = ''High'',
         edge_notes = []\<rparr>,
        \<lparr>source = ''zinc'', target = ''iron'', effect = ''inhibits'', confidence = ''Low'',
         edge_notes = []\<rparr>] []))) = [''iron'', ''zinc'']
   \<and> map (\<lambda>p. degree (snd p)) (fst (build_links
       [\<lparr>source = ''iron'', target = ''iron'', effect = ''supports'', confidence = ''High'',
         edge_notes = []\<rparr>,
        \<lparr>source = ''zinc'', target = ''iron'', effect = ''inhibits'', confidence = ''Low'',
         edge_notes = []\<rparr>] [])) = [3, 1]
   \<and> sum_list (map (\<lambda>p. degree (snd p)) (fst (build_links
       [\<lparr>source = ''iron'', target = ''iron'', effect = ''supports'', confidence = ''High'',
         edge_notes = []\<rparr>,
        \<lparr>source = ''zinc'', target = ''iron'', effect = ''inhibits'', confidence = ''Low'',
         edge_notes = []\<rparr>] []))) = 4
   \<and> length (snd (build_links
       [\<lparr>source = ''iron'', target = ''iron'', effect = ''supports'', confidence = ''High'',
         edge_notes = []\<rparr>,
        \<lparr>source = ''zinc'', target = ''iron'', effect = ''inhibits'', confidence = ''Low'',
         edge_notes = []\<rparr>] [])) = 2
   \<and> importance (hd (build_nodes (fst (build_links
       [\<lparr>source = ''iron'', target = ''iron'', effect = ''supports'', confidence = ''High'',
         edge_notes = []\<rparr>,
        \<lparr>source = ''zinc'', target = ''iron'', effect = ''inhibits'', confidence = ''Low'',
         edge_notes = []\<rparr>] [])))) \<le> 1
   \<and> 0 \<le> node_confidence (hd (build_nodes (fst (build_links
       [\<lparr>source = ''iron'', target = ''iron'', effect = ''supports'', confidence = ''High'',
         edge_notes = []\<rparr>,
        \<lparr>source = ''zinc'', target = ''iron'', effect = ''inhibits'', confidence = ''Low'',
         edge_notes = []\<rparr>] []))))"
proof -
  let ?E = "[\<lparr>source = ''iron'', target = ''iron'', effect = ''supports'', confidence = ''High'',
         edge_notes = []\<rparr>,
        \<lparr>source = ''zinc'', target = ''iron'', effect = ''inhibits'', confidence = ''Low'',
         edge_notes = []\<rparr>]"
  have ids: "map node_id (build_nodes (fst (build_links ?E []))) = [''iron'', ''zinc'']"
    by code_simp
  have degs: "map (\<lambda>p. degree (snd p)) (fst (build_links ?E [])) = [3, 1]"
    by code_simp
  from ids have hd: "hd (build_nodes (fst (build_links ?E []))) \<in> set (build_nodes (fst (build_links ?E [])))"
    by (cases "build_nodes (fst (build_links ?E []))") simp_all
  from build_graph_invariants [of ?E] ids degs hd show ?thesis
    by (simp add: split_beta Let_def)
qed

section \<open>Properties of the confidence labels\<close>

lemma startsWith_iff: "startsWith s p \<longleftrightarrow> (\<exists>r. s = p @ r)"
  by (induction s p rule: startsWith.induct) auto

lemma str_includes_iff: "str_includes s p \<longleftrightarrow> (\<exists>a b. s = a @ p @ b)"
proof (induction s)
  case Nil
  then show ?case by auto
next
  case (Cons c cs)
  show ?case
  proof
    assume "str_includes (c # cs) p"
    then consider "startsWith (c # cs) p" | "str_includes cs p" by auto
    then show "\<exists>a b. c # cs = a @ p @ b"
    proof cases
      case 1
      then obtain r where "c # cs = p @ r" by (auto simp: startsWith_iff)
      then have "c # cs = [] @ p @ r" by simp
      then show ?thesis by blast
    next
      case 2
      with Cons.IH obtain a b where "cs = a @ p @ b" by blast
      then have "c # cs = (c # a) @ p @ b" by simp
      then show ?thesis by blast
    qed
  next
    assume "\<exists>a b. c # cs = a @ p @ b"
    then obtain a b where ab: "c # cs = a @ p @ b" by blast
    show "str_includes (c # cs) p"
    proof (cases a)
      case Nil
      with ab have "startsWith (c # cs) p" by (auto simp: startsWith_iff)
      then show ?thesis by simp
    next
      case (Cons a0 as)
      with ab have "cs = as @ p @ b" by simp
      with Cons.IH have "str_includes cs p" by blast
      then show ?thesis by simp
    qed
  qed
qed

lemma str_includes_dropWhile:
  assumes "p \<noteq> []" "\<not> is_ws (hd p)"
  shows "str_includes (dropWhile is_ws s) p = str_includes s p"
proof (induction s)
  case Nil
  show ?case by simp
next
  case (Cons c cs)
  show ?case
  proof (cases "is_ws c")
    case True
    from assms obtain q qs where p: "p = q # qs" "\<not> is_ws q" by (cases p) auto
    with True have "\<not> startsWith (c # cs) p" by auto
    with True Cons show ?thesis by simp
  next
    case False
    then show ?thesis by simp
  qed
qed

lemma str_includes_rev: "str_includes (rev s) (rev p) = str_includes s p"
proof -
  have "(\<exists>a b. rev s = a @ rev p @ b) \<longleftrightarrow> (\<exists>a b. s = a @ p @ b)"
  proof
    assume "\<exists>a b. rev s = a @ rev p @ b"
    then obtain a b where "rev s = a @ rev p @ b" by blast
    then have "rev (rev s) = rev (a @ rev p @ b)" by simp
    then have "s = rev b @ p @ rev a" by simp
    then show "\<exists>a b. s = a @ p @ b" by blast
  next
    assume "\<exists>a b. s = a @ p @ b"
    then obtain a b where "s = a @ p @ b" by blast
    then have "rev s = rev b @ rev p @ rev a" by simp
    then show "\<exists>a b. rev s = a @ rev p @ b" by blast
  qed
  then show ?thesis by (simp add: str_includes_iff)
qed

lemma str_includes_trim:
  assumes "p \<noteq> []" "\<not> is_ws (hd p)" "\<not> is_ws (last p)"
  shows "str_includes (trim s) p = str_includes s p"
proof -
  have r: "rev p \<noteq> []" "\<not> is_ws (hd (rev p))"
    using assms by (simp_all add: hd_rev)
  have "str_includes (trim s) p = str_includes (dropWhile is_ws (rev (dropWhile is_ws s))) (rev p)"
    unfolding trim_def using str_includes_rev [of "dropWhile is_ws (rev (dropWhile is_ws s))" "rev p"]
    by simp
  also have "\<dots> = str_includes (rev (dropWhile is_ws s)) (rev p)"
    by (rule str_includes_dropWhile [OF r])
  also have "\<dots> = str_includes (dropWhile is_ws s) p"
    by (rule str_includes_rev)
  also have "\<dots> = str_includes s p"
    by (rule str_includes_dropWhile [OF assms(1,2)])
  finally show ?thesis .
qed

lemma lower_char_cases:
  "lower_char c = c \<or> lower_char c \<in> set lower_chars \<and> c \<in> set upper_chars"
  unfolding lower_char_def
  by (auto split: option.splits dest!: map_of_SomeD dest: set_zip_rightD set_zip_leftD)

lemma ws_not_upper: "is_ws c \<Longrightarrow> c \<notin> set upper_chars"
  by (auto simp: is_ws_def upper_chars_def)

lemma lower_not_ws: "c \<in> set lower_chars \<Longrightarrow> \<not> is_ws c"
  by (auto simp: is_ws_def lower_chars_def)

lemma is_ws_lower_char: "is_ws (lower_char c) = is_ws c"
  using lower_char_cases [of c] ws_not_upper [of c] lower_not_ws [of "lower_char c"]
  by metis

lemma dropWhile_ws_lower:
  "dropWhile is_ws (map lower_char s) = map lower_char (dropWhile is_ws s)"
  by (induction s) (simp_all add: is_ws_lower_char)

lemma toLowerCase_trim: "toLowerCase (trim s) = trim (toLowerCase s)"
  by (simp add: toLowerCase_def trim_def rev_map dropWhile_ws_lower)

lemma keyword_includes_lower_trim:
  "str_includes (toLowerCase (trim conf)) ''high'' = str_includes (toLowerCase conf) ''high''"
  "str_includes (toLowerCase (trim conf)) ''moderate'' = str_includes (toLowerCase conf) ''moderate''"
  "str_includes (toLowerCase (trim conf)) ''low'' = str_includes (toLowerCase conf) ''low''"
  by (simp_all add: toLowerCase_trim str_includes_trim is_ws_def)

lemma confidenceToNumber_rules:
  "confidenceToNumber conf =
     (let c = toLowerCase conf
      in if str_includes c ''high'' \<and> str_includes c ''moderate'' then 0.75
         else if str_includes c ''high'' then 0.9
         else if str_includes c ''moderate'' \<and> str_includes c ''low'' then 0.45
         else if str_includes c ''moderate'' then 0.6
         else if str_includes c ''low'' then 0.3
         else 0.5)"
  by (simp add: confidenceToNumber_def Let_def keyword_includes_lower_trim)

lemma confidenceToNumber_High: "confidenceToNumber ''High'' = 0.9"
  by code_simp
lemma confidenceToNumber_Low: "confidenceToNumber ''Low'' = 0.3"
  by code_simp

lemma spec_strengths_touching_filter:
  "spec_strengths_touching k (filter (\<lambda>e. source e = k \<or> target e = k) es) =
     spec_strengths_touching k es"
  by (induction es) (simp_all add: spec_strengths_touching_def)

lemma node_confidence_two:
  "confidences a = [x, y] \<Longrightarrow> node_confidence (node_of_acc d a) = (x + y) / 2"
  by (simp add: node_of_acc_def Let_def)

lemma build_nodes_entry:
  assumes "n \<in> set (build_nodes (fst (build_links es [])))"
  shows "\<exists>a. n = node_of_acc (maxDeg (fst (build_links es []))) a
             \<and> acc_id a = node_id n
             \<and> confidences a = spec_strengths_touching (node_id n) es"
proof -
  from assms obtain p where p: "p \<in> set (fst (build_links es []))"
    and n: "n = node_of_acc (maxDeg (fst (build_links es []))) (snd p)"
    by (auto simp: build_nodes_def)
  from p have "(fst p, snd p) \<in> set (fst (build_links es []))" by simp
  from build_links_entries [OF this] n show ?thesis
    by (auto simp: node_id_of_acc)
qed

lemma two_edges_strengths:
  assumes f: "filter (\<lambda>e. source e = k \<or> target e = k) edges = [e1, e2]"
    and l1: "source e1 \<noteq> target e1" and l2: "source e2 \<noteq> target e2"
  shows "spec_strengths_touching k edges =
           [confidenceToNumber (confidence e1), confidenceToNumber (confidence e2)]"
proof -
  have "e1 \<in> set (filter (\<lambda>e. source e = k \<or> target e = k) edges)"
    "e2 \<in> set (filter (\<lambda>e. source e = k \<or> target e = k) edges)"
    unfolding f by simp_all
  then have t: "source e1 = k \<or> target e1 = k" "source e2 = k \<or> target e2 = k"
    by simp_all
  have "spec_strengths_touching k edges = spec_strengths_touching k [e1, e2]"
    using spec_strengths_touching_filter [of k edges] f by simp
  also have "\<dots> = [confidenceToNumber (confidence e1), confidenceToNumber (confidence e2)]"
    using t l1 l2 by (auto simp: spec_strengths_touching_def)
  finally show ?thesis .
qed

text \<open>
  C7: the strength of a confidence label is found by case-insensitive substring matching
  with the rules in this order: "high" and "moderate" together, then "high", then
  "moderate" and "low" together, then "moderate", then "low", and 0.5 when none matches.
  The label "High" has strength 0.9 and "Low" has 0.3, so a node touched by exactly two
  edges with these labels has the confidence (0.9 + 0.3) / 2 = 0.6.
\<close>

theorem confidenceToNumber_ordered_rules:
  "(let c = toLowerCase conf;
        has_high = (\<exists>a b. c = a @ ''high'' @ b);
        has_moderate = (\<exists>a b. c = a @ ''moderate'' @ b);
        has_low = (\<exists>a b. c = a @ ''low'' @ b)
    in confidenceToNumber conf =
         (if has_high \<and> has_moderate then 0.75
          else if has_high then 0.9
          else if has_moderate \<and> has_low then 0.45
          else if has_moderate then 0.6
          else if has_low then 0.3
          else 0.5))
   \<and> confidenceToNumber ''High'' = 0.9
   \<and> confidenceToNumber ''Low'' = 0.3
   \<and> (filter (\<lambda>e. source e = k \<or> target e = k) edges = [e1, e2]
        \<and> source e1 \<noteq> target e1 \<and> source e2 \<noteq> target e2
        \<and> {confidence e1, confidence e2} = {''High'', ''Low''}
      \<longrightarrow> (\<exists>n \<in> set (build_nodes (fst (build_links edges []))). node_id n = k)
          \<and> (\<forall>n \<in> set (build_nodes (fst (build_links edges []))).
                node_id n = k \<longrightarrow> node_confidence n = 0.6))"
proof -
  have rules: "let c = toLowerCase conf;
        has_high = (\<exists>a b. c = a @ ''high'' @ b);
        has_moderate = (\<exists>a b. c = a @ ''moderate'' @ b);
        has_low = (\<exists>a b. c = a @ ''low'' @ b)
    in confidenceToNumber conf =
         (if has_high \<and> has_moderate then 0.75
          else if has_high then 0.9
          else if has_moderate \<and> has_low then 0.45
          else if has_moderate then 0.6
          else if has_low then 0.3
          else 0.5)"
    unfolding Let_def str_includes_iff [symmetric]
    using confidenceToNumber_rules [of conf] by (simp add: Let_def)
  have two: "(\<exists>n \<in> set (build_nodes (fst (build_links edges []))). node_id n = k)
          \<and> (\<forall>n \<in> set (build_nodes (fst (build_links edges []))).
                node_id n = k \<longrightarrow> node_confidence n = 0.6)"
    if f: "filter (\<lambda>e. source e = k \<or> target e = k) edges = [e1, e2]"
      and l1: "source e1 \<noteq> target e1" and l2: "source e2 \<noteq> target e2"
      and labels: "{confidence e1, confidence e2} = {''High'', ''Low''}"
  proof
    have "e1 \<in> set (filter (\<lambda>e. source e = k \<or> target e = k) edges)"
      unfolding f by simp
    then have "e1 \<in> set edges" "source e1 = k \<or> target e1 = k" by simp_all
    then have "k \<in> set (spec_endpoints edges)"
      by (auto simp: spec_endpoints_def)
    also have "set (spec_endpoints edges) = set (map fst (fst (build_links edges [])))"
      using build_links_keys [of "[]" edges] by simp
    also have "\<dots> = set (map node_id (build_nodes (fst (build_links edges []))))"
      by (simp only: build_nodes_ids)
    finally show "\<exists>n \<in> set (build_nodes (fst (build_links edges []))). node_id n = k"
      by auto
  next
    from labels have "confidence e1 = ''High'' \<and> confidence e2 = ''Low''
        \<or> confidence e1 = ''Low'' \<and> confidence e2 = ''High''"
      by (auto simp: doubleton_eq_iff)
    with two_edges_strengths [OF f l1 l2]
    have st: "spec_strengths_touching k edges = [0.9, 0.3]
        \<or> spec_strengths_touching k edges = [0.3, 0.9]"
      by (auto simp: confidenceToNumber_High confidenceToNumber_Low)
    show "\<forall>n \<in> set (build_nodes (fst (build_links edges []))).
                node_id n = k \<longrightarrow> node_confidence n = 0.6"
    proof (intro ballI impI)
      fix n assume n: "n \<in> set (build_nodes (fst (build_links edges [])))" and k: "node_id n = k"
      from build_nodes_entry [OF n] k obtain a where
        a: "n = node_of_acc (maxDeg (fst (build_links edges []))) a"
           "confidences a = spec_strengths_touching k edges"
        by auto
      from st show "node_confidence n = 0.6"
      proof
        assume "spec_strengths_touching k edges = [0.9, 0.3]"
        with a(2) have "confidences a = [0.9, 0.3]" by simp
        from node_confidence_two [OF this] a(1) show ?thesis by simp
      next
        assume "spec_strengths_touching k edges = [0.3, 0.9]"
        with a(2) have "confidences a = [0.3, 0.9]" by simp
        from node_confidence_two [OF this] a(1) show ?thesis by simp
      qed
    qed
  qed
  from rules confidenceToNumber_High confidenceToNumber_Low two show ?thesis
    by blast
qed

theorem confidenceToNumber_ordered_rules_witness:
  "confidenceToNumber ''Moderate-High'' = 0.75
   \<and> node_confidence (hd (build_nodes (fst (build_links
        [\<lparr>source = ''iron'', target = ''calcium'', effect = ''inhibits'', confidence = ''High'',
          edge_notes = []\<rparr>,
         \<lparr>source = ''zinc'', target = ''iron'', effect = ''inhibits'', confidence = ''Low'',
          edge_notes = []\<rparr>] [])))) = 0.6"
proof -
  let ?e1 = "\<lparr>source = ''iron'', target = ''calcium'', effect = ''inhibits'',
              confidence = ''High'', edge_notes = []\<rparr>"
  let ?e2 = "\<lparr>source = ''zinc'', target = ''iron'', effect = ''inhibits'',
              confidence = ''Low'', edge_notes = []\<rparr>"
  let ?nodes = "build_nodes (fst (build_links [?e1, ?e2] []))"
  note inst = confidenceToNumber_ordered_rules
    [where conf = "''Moderate-High''" and k = "''iron''" and edges = "[?e1, ?e2]"
       and ?e1.0 = ?e1 and ?e2.0 = ?e2]
  have "str_includes (toLowerCase ''Moderate-High'') ''high''"
    "str_includes (toLowerCase ''Moderate-High'') ''moderate''"
    by code_simp+
  then have hm: "\<exists>a b. toLowerCase ''Moderate-High'' = a @ ''high'' @ b"
    "\<exists>a b. toLowerCase ''Moderate-High'' = a @ ''moderate'' @ b"
    by (simp_all only: str_includes_iff)
  from inst have "let c = toLowerCase ''Moderate-High'';
        has_high = (\<exists>a b. c = a @ ''high'' @ b);
        has_moderate = (\<exists>a b. c = a @ ''moderate'' @ b);
        has_low = (\<exists>a b. c = a @ ''low'' @ b)
    in confidenceToNumber ''Moderate-High'' =
         (if has_high \<and> has_moderate then 0.75
          else if has_high then 0.9
          else if has_moderate \<and> has_low then 0.45
          else if has_moderate then 0.6
          else if has_low then 0.3
          else 0.5)"
    by (rule conjunct1)
  with hm have c1: "confidenceToNumber ''Moderate-High'' = 0.75"
    by (simp add: Let_def)
  have ids: "map node_id ?nodes = [''iron'', ''calcium'', ''zinc'']"
    by code_simp
  then have hd: "hd ?nodes \<in> set ?nodes" "node_id (hd ?nodes) = ''iron''"
    by (cases ?nodes; simp)+
  from inst have "\<forall>n \<in> set ?nodes. node_id n = ''iron'' \<longrightarrow> node_confidence n = 0.6"
    by simp
  with hd have "node_confidence (hd ?nodes) = 0.6" by blast
  with c1 show ?thesis by simp
qed

section \<open>Properties of the snapshot highlighter\<close>

lemma fold_insert_image:
  "fold (\<lambda>x T. insert (f x) T) xs T0 = T0 \<union> f ` set xs"
  by (induction xs arbitrary: T0) auto

lemma fold_insert_if:
  "fold (\<lambda>x M. if P x then insert (g x) M else M) xs M0 = M0 \<union> g ` {x \<in> set xs. P x}"
  by (induction xs arbitrary: M0) auto

lemma highlightedIds_eq:
  "highlightedIds nodes deficiencyNames highRiskNames =
     node_id ` {n \<in> set nodes.
        normalizeId (node_id n) \<in> normalizeId ` (set deficiencyNames \<union> set highRiskNames)
        \<or> normalizeId (label n) \<in> normalizeId ` (set deficiencyNames \<union> set highRiskNames)}"
proof (cases "nodes = []")
  case True
  then show ?thesis by (simp add: highlightedIds_def)
next
  case False
  then show ?thesis
    by (auto simp: highlightedIds_def Let_def fold_insert_image fold_insert_if)
qed

lemma replace_ws_runs_append:
  "replace_ws_runs f (a @ r) =
     replace_ws_runs f a @ replace_ws_runs (if a = [] then f else is_ws (last a)) r"
  by (induction a arbitrary: f) auto

lemma replace_ws_runs_in_run:
  "list_all is_ws w \<Longrightarrow> replace_ws_runs True (w @ b) = replace_ws_runs True b"
  by (induction w) auto

lemma replace_ws_runs_ws:
  "w \<noteq> [] \<Longrightarrow> list_all is_ws w \<Longrightarrow>
     replace_ws_runs f (w @ b) = (if f then [] else ''_'') @ replace_ws_runs True b"
  by (cases w) (auto simp: replace_ws_runs_in_run)

lemma replace_ws_runs_any_run:
  assumes "w1 \<noteq> []" "list_all is_ws w1" "w2 \<noteq> []" "list_all is_ws w2"
  shows "replace_ws_runs f (a @ w1 @ b) = replace_ws_runs f (a @ w2 @ b)"
  by (simp add: replace_ws_runs_append [of f a] replace_ws_runs_ws assms)

lemma list_all_ws_lower: "list_all is_ws (map lower_char w) = list_all is_ws w"
  by (induction w) (simp_all add: is_ws_lower_char)

lemma normalizeId_any_run:
  assumes "w1 \<noteq> []" "list_all is_ws w1" "w2 \<noteq> []" "list_all is_ws w2"
  shows "normalizeId (a @ w1 @ b) = normalizeId (a @ w2 @ b)"
  unfolding normalizeId_def toLowerCase_def map_append
  by (rule replace_ws_runs_any_run) (simp_all add: assms list_all_ws_lower)

lemma normalizeId_case: "toLowerCase s = toLowerCase t \<Longrightarrow> normalizeId s = normalizeId t"
  by (simp add: normalizeId_def)

lemma normalizeId_Vitamin_D: "normalizeId ''Vitamin D'' = ''vitamin_d''"
  by code_simp

lemma normalizeId_vitamin_d: "normalizeId ''vitamin_d'' = ''vitamin_d''"
  by code_simp

text \<open>
  C9: the highlighter marks a node iff its normalized identifier or its normalized label
  equals the normalization of a name of the two lists, where normalization lowers the case
  and replaces every run of white space by one underscore; so matching ignores letter case
  and the length and kind of white space runs (the name "Vitamin D" matches the node
  \<open>vitamin_d\<close>), and when no name matches the set of highlighted identifiers is empty.
\<close>

theorem highlightedIds_spec:
  "highlightedIds nodes deficiencies highRisk =
     node_id ` {n \<in> set nodes. \<exists>name \<in> set deficiencies \<union> set highRisk.
              normalizeId (node_id n) = normalizeId name
              \<or> normalizeId (label n) = normalizeId name}
   \<and> (distinct (map node_id nodes) \<longrightarrow>
        (\<forall>n \<in> set nodes. node_id n \<in> highlightedIds nodes deficiencies highRisk \<longleftrightarrow>
           (\<exists>name \<in> set deficiencies \<union> set highRisk.
              normalizeId (node_id n) = normalizeId name
              \<or> normalizeId (label n) = normalizeId name)))
   \<and> ((\<forall>n \<in> set nodes. \<forall>name \<in> set deficiencies \<union> set highRisk.
          normalizeId (node_id n) \<noteq> normalizeId name
          \<and> normalizeId (label n) \<noteq> normalizeId name) \<longrightarrow>
        highlightedIds nodes deficiencies highRisk = {})
   \<and> normalizeId ''Vitamin D'' = normalizeId ''vitamin_d''
   \<and> (toLowerCase s = toLowerCase t \<longrightarrow> normalizeId s = normalizeId t)
   \<and> (w1 \<noteq> [] \<and> list_all is_ws w1 \<and> w2 \<noteq> [] \<and> list_all is_ws w2 \<longrightarrow>
        normalizeId (a @ w1 @ b) = normalizeId (a @ w2 @ b))"
proof -
  let ?P = "\<lambda>n. \<exists>name \<in> set deficiencies \<union> set highRisk.
              normalizeId (node_id n) = normalizeId name
              \<or> normalizeId (label n) = normalizeId name"
  have eq: "highlightedIds nodes deficiencies highRisk = node_id ` {n \<in> set nodes. ?P n}"
    unfolding highlightedIds_eq by (rule arg_cong [where f = "\<lambda>S. node_id ` S"]) auto
  have iff: "\<forall>n \<in> set nodes. node_id n \<in> highlightedIds nodes deficiencies highRisk \<longleftrightarrow> ?P n"
    if d: "distinct (map node_id nodes)"
  proof
    fix n assume n: "n \<in> set nodes"
    from d have inj: "inj_on node_id (set nodes)" by (simp add: distinct_map)
    show "node_id n \<in> highlightedIds nodes deficiencies highRisk \<longleftrightarrow> ?P n"
    proof
      assume "node_id n \<in> highlightedIds nodes deficiencies highRisk"
      then have "node_id n \<in> node_id ` {n \<in> set nodes. ?P n}"
        unfolding eq .
      then obtain n' where n': "n' \<in> {n \<in> set nodes. ?P n}" "node_id n = node_id n'"
        by (rule imageE)
      from n' have mem: "n' \<in> set nodes" and P: "?P n'" by simp_all
      from inj n mem n'(2) have "n = n'" by (simp add: inj_on_def)
      with P show "?P n" by simp
    next
      assume "?P n"
      with n show "node_id n \<in> highlightedIds nodes deficiencies highRisk"
        unfolding eq by blast
    qed
  qed
  have none: "highlightedIds nodes deficiencies highRisk = {}"
    if "\<forall>n \<in> set nodes. \<forall>name \<in> set deficiencies \<union> set highRisk.
          normalizeId (node_id n) \<noteq> normalizeId name
          \<and> normalizeId (label n) \<noteq> normalizeId name"
    unfolding eq using that by blast
  have vd: "normalizeId ''Vitamin D'' = normalizeId ''vitamin_d''"
    by (simp add: normalizeId_Vitamin_D normalizeId_vitamin_d)
  from eq iff none vd normalizeId_case [of s t] normalizeId_any_run [of w1 w2 a b]
  show ?thesis by blast
qed

theorem highlightedIds_spec_witness:
  "highlightedIds
     [\<lparr>node_id = ''vitamin_d'', label = ''vitamin d'', node_type = Vitamin,
       cluster = FatSoluble, importance = 1, risk = 0.5, node_confidence = 0.9\<rparr>,
      \<lparr>node_id = ''calcium'', label = ''calcium'', node_type = Mineral,
       cluster = Other, importance = 1, risk = 0.5, node_confidence = 0.9\<rparr>]
     [''Vitamin D''] [''Zinc''] = {''vitamin_d''}
   \<and> ''calcium'' \<notin> highlightedIds
     [\<lparr>node_id = ''vitamin_d'', label = ''vitamin d'', node_type = Vitamin,
       cluster = FatSoluble, importance = 1, risk = 0.5, node_confidence = 0.9\<rparr>,
      \<lparr>node_id = ''calcium'', label = ''calcium'', node_type = Mineral,
       cluster = Other, importance = 1, risk = 0.5, node_confidence = 0.9\<rparr>]
     [''Vitamin D''] [''Zinc'']
   \<and> highlightedIds
     [\<lparr>node_id = ''vitamin_d'', label = ''vitamin d'', node_type = Vitamin,
       cluster = FatSoluble, importance = 1, risk = 0.5, node_confidence = 0.9\<rparr>,
      \<lparr>node_id = ''calcium'', label = ''calcium'', node_type = Mineral,
       cluster = Other, importance = 1, risk = 0.5, node_confidence = 0.9\<rparr>]
     [''Ferritin''] [''Zinc''] = {}
   \<and> normalizeId ''VITAMIN D'' = normalizeId ''vitamin d''
   \<and> normalizeId (''Vitamin'' @ '' '' @ ''D'') = normalizeId (''Vitamin'' @ [CHR 0x09, CHR '' ''] @ ''D'')"
proof -
  let ?n1 = "\<lparr>node_id = ''vitamin_d'', label = ''vitamin d'', node_type = Vitamin,
       cluster = FatSoluble, importance = 1, risk = 0.5, node_confidence = 0.9\<rparr>"
  let ?n2 = "\<lparr>node_id = ''calcium'', label = ''calcium'', node_type = Mineral,
       cluster = Other, importance = 1, risk = 0.5, node_confidence = 0.9\<rparr>"
  have norm: "normalizeId ''Vitamin D'' = ''vitamin_d''" "normalizeId ''vitamin_d'' = ''vitamin_d''"
    "normalizeId ''vitamin d'' = ''vitamin_d''" "normalizeId ''calcium'' = ''calcium''"
    "normalizeId ''Zinc'' = ''zinc''" "normalizeId ''Ferritin'' = ''ferritin''"
    by code_simp+
  have lower: "toLowerCase ''VITAMIN D'' = toLowerCase ''vitamin d''"
    by code_simp
  have runs: "'' '' \<noteq> [] \<and> list_all is_ws '' '' \<and> [CHR 0x09, CHR '' ''] \<noteq> []
      \<and> list_all is_ws [CHR 0x09, CHR '' '']"
    by (simp add: is_ws_def)
  have dist: "distinct (map node_id [?n1, ?n2])"
    by simp
  note inst = highlightedIds_spec
    [where nodes = "[?n1, ?n2]" and deficiencies = "[''Vitamin D'']" and highRisk = "[''Zinc'']"
       and s = "''VITAMIN D''" and t = "''vitamin d''"
       and ?w1.0 = "'' ''" and ?w2.0 = "[CHR 0x09, CHR '' '']" and a = "''Vitamin''" and b = "''D''"]
  note inst' = highlightedIds_spec
    [where nodes = "[?n1, ?n2]" and deficiencies = "[''Ferritin'']" and highRisk = "[''Zinc'']"]
  note q1 = inst [THEN conjunct1]
  note q2 = inst [THEN conjunct2, THEN conjunct1, rule_format, OF dist]
  note q3 = inst' [THEN conjunct2, THEN conjunct2, THEN conjunct1]
  note q5 = inst [THEN conjunct2, THEN conjunct2, THEN conjunct2, THEN conjunct2, THEN conjunct1,
      rule_format, OF lower]
  note q6 = inst [THEN conjunct2, THEN conjunct2, THEN conjunct2, THEN conjunct2, THEN conjunct2,
      rule_format, OF runs]
  have "{n \<in> set [?n1, ?n2]. \<exists>name \<in> set [''Vitamin D''] \<union> set [''Zinc''].
              normalizeId (node_id n) = normalizeId name
              \<or> normalizeId (label n) = normalizeId name} = {?n1}"
    by (auto simp: norm)
  with q1 have a: "highlightedIds [?n1, ?n2] [''Vitamin D''] [''Zinc''] = {''vitamin_d''}"
    by simp
  from q2 [of ?n2] have c: "''calcium'' \<notin> highlightedIds [?n1, ?n2] [''Vitamin D''] [''Zinc'']"
    by (simp add: norm)
  from q3 have b: "highlightedIds [?n1, ?n2] [''Ferritin''] [''Zinc''] = {}"
    by (simp add: norm)
  from a b c q5 q6 show ?thesis by simp
qed

end
